theory Spec2Isabelle
  imports Complex_Main "HOL-Library.AList"
begin

section \<open>Data model\<close>

text \<open>
  The Go program keeps its state in a relational store reached through an ORM. The
  embedding keeps the rows the modelled functions read and write. Identifiers (Go
  \<open>uint\<close>) are natural numbers: no modelled function does arithmetic on them. A
  \<open>time.Time\<close> is a natural number (a clock reading).
\<close>

type_synonym uint = nat
type_synonym timestamp = nat
type_synonym WorkflowStatus = string

text \<open>
  A Go \<open>interface{}\<close> value as the handlers and the JSON decoder produce it. A Go
  \<open>string\<close> is a byte sequence, as an Isabelle \<open>string\<close> is; a \<open>float64\<close> is
  modelled by the rational it denotes (JSON carries no NaN or infinity), and the
  conversion of an integer to \<open>float64\<close> by the embedding of the integers (its rounding
  beyond 53 bits is not modelled; nothing below depends on it).
\<close>

datatype val =
    VNil
  | VBool bool
  | VString string
  | VFloat64 rat
  | VFloat32 rat
  | VInt int
  | VInt64 int
  | VUint nat
  | VArray "val list"
  | VObject "(string \<times> val) list"

text \<open>
  A Go \<open>map[string]interface{}\<close> is an association list; the order of the list is the
  order in which \<open>range\<close> visits the map, which Go leaves unspecified, so a statement
  for every list is a statement for every iteration order.
\<close>

type_synonym fieldmap = "(string \<times> val) list"

definition StatusDraft :: WorkflowStatus where
  "StatusDraft = ''draft''"

definition StatusInReview :: WorkflowStatus where
  "StatusInReview = ''in_review''"

definition StatusReadyForApproval :: WorkflowStatus where
  "StatusReadyForApproval = ''ready_for_approval''"

definition StatusApproved :: WorkflowStatus where
  "StatusApproved = ''approved''"

definition StatusPublished :: WorkflowStatus where
  "StatusPublished = ''published''"

definition StatusRejected :: WorkflowStatus where
  "StatusRejected = ''rejected''"

text \<open>
  Isabelle's record fields are constants of the theory, so the fields that several Go
  structs share are written with the struct's name: \<open>FieldName\<close> and \<open>FieldType\<close>
  are \<open>ContentField.Name\<close> and \<open>ContentField.Type\<close>, \<open>TypeID\<close> is
  \<open>ContentType.ID\<close>, \<open>RoleName\<close> is \<open>Role.Name\<close> and \<open>UserRole\<close> is
  \<open>User.Role\<close> (a pointer: \<open>None\<close> is nil). Columns that no modelled function
  reads are left out.
\<close>

record ContentField =
  FieldName :: string
  FieldType :: string
  Required :: bool
  IsSEO :: bool
  Unique :: bool
  MaxLength :: "int option"
  MinLength :: "int option"
  Pattern :: string
  MinValue :: "rat option"
  MaxValue :: "rat option"
  DefaultValue :: string

record ContentType =
  TypeID :: uint
  Fields :: "ContentField list"
  SEOFields :: "ContentField list"

text \<open>
  \<open>Data\<close> is the JSON column of the entry, decoded: \<open>None\<close> when the column does not
  hold a JSON object. \<open>DeletedAt\<close> is the soft-delete mark of the ORM.
\<close>

record ContentEntry =
  ID :: uint
  ContentTypeID :: uint
  Data :: "fieldmap option"
  Status :: WorkflowStatus
  CreatedBy :: uint
  UpdatedBy :: uint
  PublishedAt :: "timestamp option"
  DeletedAt :: "timestamp option"

text \<open>
  The three JSON columns of a permission are \<open>None\<close> when the column is nil and
  otherwise hold the slice \<open>json.Unmarshal\<close> leaves in the target.
\<close>

record Permission =
  Module :: string
  Action :: string
  FieldScope :: string
  AllowedFields :: "string list option"
  DeniedFields :: "string list option"
  ContentTypeIDs :: "uint list option"

record Role =
  RoleName :: string
  Permissions :: "Permission list"

record User =
  UserRole :: "Role option"

record WorkflowHistory =
  EntryID :: uint
  FromStatus :: WorkflowStatus
  ToStatus :: WorkflowStatus
  ChangedBy :: uint
  Comment :: string

datatype error =
    EntryNotFound
  | UserNotFound
  | ContentTypeNotFound
  | InvalidTransition WorkflowStatus WorkflowStatus string
  | NotDraft WorkflowStatus
  | Unauthorized
  | NoPermission
  | MissingRequired string
  | MustBeString string
  | TooShort string int
  | TooLong string int
  | InvalidPattern string
  | PatternMismatch string
  | InvalidSlug string
  | InvalidEmail string
  | InvalidURL string
  | MustBeNumber string
  | BelowMinValue string rat
  | AboveMaxValue string rat
  | MustBeBoolean string
  | MustBeDateString string
  | InvalidDate string
  | MustBeMediaURL string
  | DuplicateValue string val
  | UniquenessCheckFailed string
  | UnknownField string
  | RequiredEmpty string
  | PublishedLocked
  | NoDataProvided
  | NoFieldPermitted
  | DBError
  | Panic

text \<open>
  The statements the store can refuse. \<open>faults\<close> says which of them fail with an
  infrastructure error; a lookup by primary key fails when the row is missing.
\<close>

datatype dbop = SaveEntry | CreateEntry | DeleteEntry | CreateHistory | CountEntries

record DB =
  users :: "uint \<Rightarrow> User option"
  contentTypes :: "uint \<Rightarrow> ContentType option"
  entries :: "ContentEntry list"
  nextEntryID :: uint
  histories :: "WorkflowHistory list"
  faults :: "dbop \<Rightarrow> bool"

text \<open>\<open>database.DB.First(&entry, id)\<close>: the row with this key that is not soft-deleted.\<close>

definition firstEntry :: "DB \<Rightarrow> uint \<Rightarrow> ContentEntry option" where
  "firstEntry db entryID =
     find (\<lambda>e. ID e = entryID \<and> DeletedAt e = None) (entries db)"

text \<open>\<open>database.DB.Save(&entry)\<close>: every column of the row with the entry's key.\<close>

definition saveEntry :: "ContentEntry \<Rightarrow> ContentEntry list \<Rightarrow> ContentEntry list" where
  "saveEntry entry rows =
     (if list_ex (\<lambda>e. ID e = ID entry) rows
      then map (\<lambda>e. if ID e = ID entry then entry else e) rows
      else rows @ [entry])"

section \<open>Workflow engine\<close>

definition transitions :: "(WorkflowStatus \<times> (WorkflowStatus \<times> string list) list) list" where
  "transitions =
     [(StatusDraft,
         [(StatusInReview, [''editor'', ''admin''])]),
      (StatusInReview,
         [(StatusReadyForApproval, [''editor'', ''admin'']),
          (StatusRejected, [''editor'', ''admin'']),
          (StatusDraft, [''editor'', ''admin''])]),
      (StatusReadyForApproval,
         [(StatusApproved, [''manager'', ''admin'']),
          (StatusRejected, [''manager'', ''admin''])]),
      (StatusApproved,
         [(StatusPublished, [''manager'', ''admin''])]),
      (StatusRejected,
         [(StatusDraft, [''editor'', ''admin''])])]"

definition isValidTransition :: "WorkflowStatus \<Rightarrow> WorkflowStatus \<Rightarrow> string \<Rightarrow> bool" where
  "isValidTransition fromStatus toStatus userRole =
     (case map_of transitions fromStatus of
        None \<Rightarrow> False
      | Some row \<Rightarrow>
          (case map_of row toStatus of
             None \<Rightarrow> False
           | Some allowedRoles \<Rightarrow> userRole \<in> set allowedRoles))"

definition ChangeWorkflowStatus ::
  "timestamp \<Rightarrow> uint \<Rightarrow> uint \<Rightarrow> string \<Rightarrow> string \<Rightarrow> DB \<Rightarrow> (error + ContentEntry) \<times> DB" where
  "ChangeWorkflowStatus now entryID userID toStatus comment db =
     (case firstEntry db entryID of
        None \<Rightarrow> (Inl EntryNotFound, db)
      | Some entry \<Rightarrow>
          (case users db userID of
             None \<Rightarrow> (Inl UserNotFound, db)
           | Some user \<Rightarrow>
               (case UserRole user of
                  None \<Rightarrow> (Inl Panic, db)
                | Some role \<Rightarrow>
                    if \<not> isValidTransition (Status entry) toStatus (RoleName role)
                    then (Inl (InvalidTransition (Status entry) toStatus (RoleName role)), db)
                    else
                      let fromStatus = Status entry;
                          entry1 = entry\<lparr>Status := toStatus\<rparr>;
                          entry2 = (if toStatus = StatusPublished
                                    then entry1\<lparr>PublishedAt := Some now\<rparr> else entry1)
                      in if faults db SaveEntry then (Inl DBError, db)
                         else
                           let db1 = db\<lparr>entries := saveEntry entry2 (entries db)\<rparr>;
                               history = \<lparr>EntryID = entryID, FromStatus = fromStatus,
                                          ToStatus = toStatus, ChangedBy = userID,
                                          Comment = comment\<rparr>
                           in if faults db CreateHistory then (Inl DBError, db1)
                              else (Inr entry2,
                                    db1\<lparr>histories := histories db1 @ [history]\<rparr>))))"

text \<open>
  The transition table as the specification prints it, one row per line of the table:
  (from, to, the roles allowed). It is compared with \<open>isValidTransition\<close> below.
\<close>

definition specTransitionTable :: "(string \<times> string \<times> string list) list" where
  "specTransitionTable =
     [(''draft'', ''in_review'', [''editor'', ''admin'']),
      (''in_review'', ''ready_for_approval'', [''editor'', ''admin'']),
      (''in_review'', ''rejected'', [''editor'', ''admin'']),
      (''in_review'', ''draft'', [''editor'', ''admin'']),
      (''ready_for_approval'', ''approved'', [''manager'', ''admin'']),
      (''ready_for_approval'', ''rejected'', [''manager'', ''admin'']),
      (''approved'', ''published'', [''manager'', ''admin'']),
      (''rejected'', ''draft'', [''editor'', ''admin''])]"

definition inSpecTable :: "string \<Rightarrow> string \<Rightarrow> string \<Rightarrow> bool" where
  "inSpecTable fromStatus toStatus roleName =
     list_ex (\<lambda>(f, t, roles). f = fromStatus \<and> t = toStatus \<and> roleName \<in> set roles)
       specTransitionTable"

text \<open>The named shortcuts of the workflow engine.\<close>

definition RequestReview ::
  "timestamp \<Rightarrow> uint \<Rightarrow> uint \<Rightarrow> string \<Rightarrow> DB \<Rightarrow> (error + ContentEntry) \<times> DB" where
  "RequestReview now entryID userID comment db =
     (case firstEntry db entryID of
        None \<Rightarrow> (Inl EntryNotFound, db)
      | Some entry \<Rightarrow>
          if Status entry \<noteq> StatusDraft then (Inl (NotDraft (Status entry)), db)
          else ChangeWorkflowStatus now entryID userID StatusInReview comment db)"

definition ApproveEntry ::
  "timestamp \<Rightarrow> uint \<Rightarrow> uint \<Rightarrow> string \<Rightarrow> DB \<Rightarrow> (error + ContentEntry) \<times> DB" where
  "ApproveEntry now entryID userID comment db =
     ChangeWorkflowStatus now entryID userID StatusApproved comment db"

definition RejectEntry ::
  "timestamp \<Rightarrow> uint \<Rightarrow> uint \<Rightarrow> string \<Rightarrow> DB \<Rightarrow> (error + ContentEntry) \<times> DB" where
  "RejectEntry now entryID userID comment db =
     ChangeWorkflowStatus now entryID userID StatusRejected comment db"

definition PublishEntry ::
  "timestamp \<Rightarrow> uint \<Rightarrow> uint \<Rightarrow> string \<Rightarrow> DB \<Rightarrow> (error + ContentEntry) \<times> DB" where
  "PublishEntry now entryID userID comment db =
     ChangeWorkflowStatus now entryID userID StatusPublished comment db"

section \<open>Permission resolver\<close>

text \<open>
  \<open>IsFullAccessRole\<close> fills a table of twelve flags, module by action, from the role's
  permissions and asks whether every flag is set. The nested Go map is a nested
  association list with the keys of the source.
\<close>

definition requiredPerms :: "(string \<times> (string \<times> bool) list) list" where
  "requiredPerms =
     [(''ContentEntry'',
         [(''create'', False), (''read'', False), (''update'', False), (''delete'', False)]),
      (''Media'',
         [(''create'', False), (''read'', False), (''update'', False), (''delete'', False)]),
      (''SEO'',
         [(''create'', False), (''read'', False), (''update'', False), (''delete'', False)])]"

definition markPerm ::
  "Permission \<Rightarrow> (string \<times> (string \<times> bool) list) list \<Rightarrow> (string \<times> (string \<times> bool) list) list" where
  "markPerm perm required =
     (case map_of required (Module perm) of
        None \<Rightarrow> required
      | Some actions \<Rightarrow>
          (case map_of actions (Action perm) of
             None \<Rightarrow> required
           | Some _ \<Rightarrow>
               AList.update (Module perm) (AList.update (Action perm) True actions) required))"

definition IsFullAccessRole :: "User \<Rightarrow> bool" where
  "IsFullAccessRole user =
     (case UserRole user of
        None \<Rightarrow> False
      | Some role \<Rightarrow>
          if RoleName role = ''admin'' then True
          else list_all (\<lambda>(moduleName, actions). list_all (\<lambda>(action, has). has) actions)
                 (fold markPerm (Permissions role) requiredPerms))"

text \<open>
  The content-type whitelist of a permission, as both \<open>FilterFieldsByPermission\<close> and
  \<open>CanAccessField\<close> test it: the permission is skipped when the column is not nil,
  the decoded list is not empty and the content type is not in it.
\<close>

definition contentTypeExcluded :: "Permission \<Rightarrow> uint \<Rightarrow> bool" where
  "contentTypeExcluded perm contentTypeID =
     (case ContentTypeIDs perm of
        None \<Rightarrow> False
      | Some contentTypeIDs \<Rightarrow>
          length contentTypeIDs > 0 \<and> contentTypeID \<notin> set contentTypeIDs)"

text \<open>The first loop of \<open>FilterFieldsByPermission\<close>: the first applicable permission.\<close>

fun findUserPermission :: "Permission list \<Rightarrow> string \<Rightarrow> uint \<Rightarrow> Permission option" where
  "findUserPermission [] action contentTypeID = None"
| "findUserPermission (perm # rest) action contentTypeID =
     (if Module perm = ''ContentEntry'' \<and> Action perm = action
      then (if contentTypeExcluded perm contentTypeID
            then findUserPermission rest action contentTypeID
            else Some perm)
      else findUserPermission rest action contentTypeID)"

definition decodedList :: "string list option \<Rightarrow> string list" where
  "decodedList column = (case column of None \<Rightarrow> [] | Some names \<Rightarrow> names)"

text \<open>
  The last loop of \<open>FilterFieldsByPermission\<close>: a key is looked up among the fields of
  the content type, and the first field of that name decides.
\<close>

definition keepByScope :: "string \<Rightarrow> ContentField list \<Rightarrow> string \<Rightarrow> bool" where
  "keepByScope fieldScope allFields k =
     (case find (\<lambda>field. FieldName field = k) allFields of
        None \<Rightarrow> False
      | Some field \<Rightarrow>
          if fieldScope = ''seo_only'' then IsSEO field
          else if fieldScope = ''non_seo_only'' then \<not> IsSEO field
          else True)"

definition FilterFieldsByPermission ::
  "DB \<Rightarrow> uint \<Rightarrow> string \<Rightarrow> fieldmap \<Rightarrow> uint \<Rightarrow> error + fieldmap" where
  "FilterFieldsByPermission db userID action data contentTypeID =
     (case users db userID of
        None \<Rightarrow> Inl Unauthorized
      | Some user \<Rightarrow>
          if IsFullAccessRole user then Inr data
          else
            (case UserRole user of
               None \<Rightarrow> Inl Panic
             | Some role \<Rightarrow>
                 (case findUserPermission (Permissions role) action contentTypeID of
                    None \<Rightarrow> Inl NoPermission
                  | Some userPermission \<Rightarrow>
                      let fieldScope = (if FieldScope userPermission = [] then ''all''
                                        else FieldScope userPermission)
                      in (case contentTypes db contentTypeID of
                            None \<Rightarrow> Inl ContentTypeNotFound
                          | Some ct \<Rightarrow>
                              let allFields = Fields ct @ SEOFields ct;
                                  allowedFields = decodedList (AllowedFields userPermission);
                                  deniedFields = decodedList (DeniedFields userPermission)
                              in if fieldScope = ''custom'' \<and> length allowedFields > 0
                                 then Inr (filter (\<lambda>(k, v). k \<in> set allowedFields) data)
                                 else if fieldScope = ''custom'' \<and> length deniedFields > 0
                                 then Inr (filter (\<lambda>(k, v). k \<notin> set deniedFields) data)
                                 else Inr (filter (\<lambda>(k, v). keepByScope fieldScope allFields k)
                                             data)))))"

text \<open>The permission loop of \<open>CanAccessField\<close>, for the field found in the schema.\<close>

fun canAccessLoop :: "Permission list \<Rightarrow> ContentField \<Rightarrow> string \<Rightarrow> uint \<Rightarrow> bool" where
  "canAccessLoop [] targetField fieldName contentTypeID = False"
| "canAccessLoop (perm # rest) targetField fieldName contentTypeID =
     (if Module perm \<noteq> ''ContentEntry''
      then canAccessLoop rest targetField fieldName contentTypeID
      else if contentTypeExcluded perm contentTypeID
      then canAccessLoop rest targetField fieldName contentTypeID
      else if FieldScope perm = ''custom'' \<and> length (decodedList (AllowedFields perm)) > 0
      then fieldName \<in> set (decodedList (AllowedFields perm))
      else if FieldScope perm = ''custom'' \<and> length (decodedList (DeniedFields perm)) > 0
      then fieldName \<notin> set (decodedList (DeniedFields perm))
      else if FieldScope perm = [] \<or> FieldScope perm = ''all'' then True
      else if FieldScope perm = ''seo_only'' then IsSEO targetField
      else if FieldScope perm = ''non_seo_only'' then \<not> IsSEO targetField
      else canAccessLoop rest targetField fieldName contentTypeID)"

definition CanAccessField :: "DB \<Rightarrow> uint \<Rightarrow> string \<Rightarrow> uint \<Rightarrow> error + bool" where
  "CanAccessField db userID fieldName contentTypeID =
     (case users db userID of
        None \<Rightarrow> Inl UserNotFound
      | Some user \<Rightarrow>
          (case UserRole user of
             None \<Rightarrow> Inr False
           | Some role \<Rightarrow>
               if IsFullAccessRole user then Inr True
               else
                 let allFields = (case contentTypes db contentTypeID of
                                    None \<Rightarrow> []
                                  | Some ct \<Rightarrow> Fields ct @ SEOFields ct)
                 in (case find (\<lambda>f. FieldName f = fieldName) allFields of
                       None \<Rightarrow> Inr False
                     | Some targetField \<Rightarrow>
                         Inr (canAccessLoop (Permissions role) targetField fieldName
                                contentTypeID))))"

section \<open>Field validator\<close>

text \<open>
  What the validator asks of the Go library and of the store's query language is a
  parameter: \<open>regexMatch pattern s\<close> is \<open>regexp.MatchString\<close> (\<open>None\<close> when the
  pattern does not compile), \<open>parseRequestURI\<close> and \<open>parseDate\<close> say whether
  \<open>url.ParseRequestURI\<close> and \<open>time.Parse("2006-01-02", _)\<close> succeed, and
  \<open>jsonbContains data name value\<close> is the store's containment test
  \<open>data @> {name: value}\<close> on the JSON column of a row.
\<close>

record Ext =
  regexMatch :: "string \<Rightarrow> string \<Rightarrow> bool option"
  parseRequestURI :: "string \<Rightarrow> bool"
  parseDate :: "string \<Rightarrow> bool"
  jsonbContains :: "fieldmap option \<Rightarrow> string \<Rightarrow> val \<Rightarrow> bool"

definition slugPattern :: string where
  "slugPattern = ''^[a-z0-9]+(?:-[a-z0-9]+)*$''"

text \<open>The email pattern of the source; \<open>CHR 0x5C\<close> is the backslash.\<close>

definition emailPattern :: string where
  "emailPattern =
     ''^[a-zA-Z0-9._%+'' @ [CHR 0x5C] @ ''-]+@[a-zA-Z0-9.'' @ [CHR 0x5C] @ ''-]+''
       @ [CHR 0x5C] @ ''.[a-zA-Z]{2,}$''"

text \<open>
  \<open>len(strVal)\<close> of a Go string is its number of bytes, which is \<open>length\<close> of the
  Isabelle string. \<open>regexp.MustCompile\<close> panics on a pattern that does not compile.
\<close>

definition validateString :: "Ext \<Rightarrow> ContentField \<Rightarrow> val \<Rightarrow> error + unit" where
  "validateString ext field value =
     (case value of
        VString strVal \<Rightarrow>
          if (case MinLength field of None \<Rightarrow> False | Some n \<Rightarrow> int (length strVal) < n)
          then Inl (TooShort (FieldName field) (the (MinLength field)))
          else if (case MaxLength field of None \<Rightarrow> False | Some n \<Rightarrow> int (length strVal) > n)
          then Inl (TooLong (FieldName field) (the (MaxLength field)))
          else if Pattern field \<noteq> '''' \<and> regexMatch ext (Pattern field) strVal = None
          then Inl (InvalidPattern (FieldName field))
          else if Pattern field \<noteq> '''' \<and> regexMatch ext (Pattern field) strVal = Some False
          then Inl (PatternMismatch (FieldName field))
          else if FieldName field = ''slug''
          then (case regexMatch ext slugPattern strVal of
                  None \<Rightarrow> Inl Panic
                | Some matched \<Rightarrow>
                    if \<not> matched then Inl (InvalidSlug (FieldName field)) else Inr ())
          else Inr ()
      | _ \<Rightarrow> Inl (MustBeString (FieldName field)))"

definition validateEmail :: "Ext \<Rightarrow> ContentField \<Rightarrow> val \<Rightarrow> error + unit" where
  "validateEmail ext field value =
     (case value of
        VString strVal \<Rightarrow>
          (case regexMatch ext emailPattern strVal of
             None \<Rightarrow> Inl Panic
           | Some matched \<Rightarrow>
               if \<not> matched then Inl (InvalidEmail (FieldName field)) else Inr ())
      | _ \<Rightarrow> Inl (MustBeString (FieldName field)))"

definition validateURL :: "Ext \<Rightarrow> ContentField \<Rightarrow> val \<Rightarrow> error + unit" where
  "validateURL ext field value =
     (case value of
        VString strVal \<Rightarrow>
          if \<not> parseRequestURI ext strVal then Inl (InvalidURL (FieldName field)) else Inr ()
      | _ \<Rightarrow> Inl (MustBeString (FieldName field)))"

definition checkRange :: "ContentField \<Rightarrow> rat \<Rightarrow> error + unit" where
  "checkRange field numVal =
     (if (case MinValue field of None \<Rightarrow> False | Some lo \<Rightarrow> numVal < lo)
      then Inl (BelowMinValue (FieldName field) (the (MinValue field)))
      else if (case MaxValue field of None \<Rightarrow> False | Some hi \<Rightarrow> numVal > hi)
      then Inl (AboveMaxValue (FieldName field) (the (MaxValue field)))
      else Inr ())"

definition validateNumber :: "ContentField \<Rightarrow> val \<Rightarrow> error + unit" where
  "validateNumber field value =
     (case value of
        VFloat64 v \<Rightarrow> checkRange field v
      | VFloat32 v \<Rightarrow> checkRange field v
      | VInt v \<Rightarrow> checkRange field (of_int v)
      | VInt64 v \<Rightarrow> checkRange field (of_int v)
      | _ \<Rightarrow> Inl (MustBeNumber (FieldName field)))"

definition validateDate :: "Ext \<Rightarrow> ContentField \<Rightarrow> val \<Rightarrow> error + unit" where
  "validateDate ext field value =
     (case value of
        VString strVal \<Rightarrow>
          if \<not> parseDate ext strVal then Inl (InvalidDate (FieldName field)) else Inr ()
      | _ \<Rightarrow> Inl (MustBeDateString (FieldName field)))"

definition validateMedia :: "Ext \<Rightarrow> ContentField \<Rightarrow> val \<Rightarrow> error + unit" where
  "validateMedia ext field value =
     (case value of
        VString strVal \<Rightarrow>
          if \<not> parseRequestURI ext strVal then Inl (InvalidURL (FieldName field)) else Inr ()
      | _ \<Rightarrow> Inl (MustBeMediaURL (FieldName field)))"

text \<open>
  The switch on the declared type. \<open>ValidateContentEntryEnhanced\<close> carries the same
  switch inline, case for case; a type outside the switch passes.
\<close>

definition validateFieldByType :: "Ext \<Rightarrow> ContentField \<Rightarrow> val \<Rightarrow> error + unit" where
  "validateFieldByType ext field value =
     (if FieldType field = ''string'' \<or> FieldType field = ''text''
      then validateString ext field value
      else if FieldType field = ''email'' then validateEmail ext field value
      else if FieldType field = ''url'' then validateURL ext field value
      else if FieldType field = ''number'' then validateNumber field value
      else if FieldType field = ''boolean''
      then (case value of VBool b \<Rightarrow> Inr () | _ \<Rightarrow> Inl (MustBeBoolean (FieldName field)))
      else if FieldType field = ''date'' then validateDate ext field value
      else if FieldType field = ''media'' then validateMedia ext field value
      else Inr ())"

text \<open>
  The counting query of \<open>checkUniqueness\<close>: the rows of the content type that are not
  soft-deleted, contain the value under the field's name and are not the excluded row.
\<close>

definition checkUniqueness ::
  "Ext \<Rightarrow> DB \<Rightarrow> uint \<Rightarrow> string \<Rightarrow> val \<Rightarrow> uint option \<Rightarrow> error + unit" where
  "checkUniqueness ext db contentTypeID fieldName value excludeEntryID =
     (if faults db CountEntries then Inl (UniquenessCheckFailed fieldName)
      else
        let count = length (filter
              (\<lambda>e. DeletedAt e = None \<and> ContentTypeID e = contentTypeID
                    \<and> jsonbContains ext (Data e) fieldName value
                    \<and> (case excludeEntryID of None \<Rightarrow> True | Some x \<Rightarrow> ID e \<noteq> x))
              (entries db))
        in if count > 0 then Inl (DuplicateValue fieldName value) else Inr ())"

text \<open>
  What both validators do with a field whose value is present and not empty: the
  switch on the type, then the uniqueness query when the field is unique.
\<close>

definition checkPresent ::
  "Ext \<Rightarrow> DB \<Rightarrow> uint \<Rightarrow> ContentField \<Rightarrow> val \<Rightarrow> uint option \<Rightarrow> error + unit" where
  "checkPresent ext db contentTypeID field value excludeEntryID =
     (case validateFieldByType ext field value of
        Inl err \<Rightarrow> Inl err
      | Inr _ \<Rightarrow>
          if Unique field
          then checkUniqueness ext db contentTypeID (FieldName field) value excludeEntryID
          else Inr ())"

text \<open>\<open>!exists || value == nil || value == ""\<close> on the result of a map lookup.\<close>

definition isEmptyValue :: "val option \<Rightarrow> bool" where
  "isEmptyValue lookup = (lookup = None \<or> lookup = Some VNil \<or> lookup = Some (VString ''''))"

text \<open>
  The loop of \<open>ValidateContentEntryEnhanced\<close> over the fields. The Go function writes
  defaults into the caller's map, also when it returns an error later, so the model
  returns the map with the result.
\<close>

fun validateFields ::
  "Ext \<Rightarrow> DB \<Rightarrow> uint \<Rightarrow> ContentField list \<Rightarrow> fieldmap \<Rightarrow> (error + unit) \<times> fieldmap" where
  "validateFields ext db contentTypeID [] data = (Inr (), data)"
| "validateFields ext db contentTypeID (field # rest) data =
     (if isEmptyValue (map_of data (FieldName field))
      then (if Required field then (Inl (MissingRequired (FieldName field)), data)
            else if DefaultValue field \<noteq> ''''
            then validateFields ext db contentTypeID rest
                   (AList.update (FieldName field) (VString (DefaultValue field)) data)
            else validateFields ext db contentTypeID rest data)
      else (case checkPresent ext db contentTypeID field (the (map_of data (FieldName field)))
                   None of
              Inl err \<Rightarrow> (Inl err, data)
            | Inr _ \<Rightarrow> validateFields ext db contentTypeID rest data))"

definition ValidateContentEntryEnhanced ::
  "Ext \<Rightarrow> DB \<Rightarrow> ContentType \<Rightarrow> fieldmap \<Rightarrow> (error + unit) \<times> fieldmap" where
  "ValidateContentEntryEnhanced ext db ct data =
     validateFields ext db (TypeID ct) (Fields ct @ SEOFields ct) data"

text \<open>\<open>strings.HasSuffix\<close>.\<close>

definition HasSuffix :: "string \<Rightarrow> string \<Rightarrow> bool" where
  "HasSuffix s suffix =
     (length s \<ge> length suffix \<and> drop (length s - length suffix) s = suffix)"

text \<open>
  \<open>ValidatePartialUpdate\<close>: the map from names to fields (a later field of the same
  name replaces an earlier one), then the loop over the submitted map.
\<close>

definition fieldMapOf :: "ContentField list \<Rightarrow> string \<Rightarrow> ContentField option" where
  "fieldMapOf allFields = fold (\<lambda>field m. m(FieldName field \<mapsto> field)) allFields Map.empty"

fun validatePartialLoop ::
  "Ext \<Rightarrow> DB \<Rightarrow> uint \<Rightarrow> (string \<Rightarrow> ContentField option) \<Rightarrow> uint \<Rightarrow> fieldmap \<Rightarrow> error + unit" where
  "validatePartialLoop ext db contentTypeID fieldMap entryID [] = Inr ()"
| "validatePartialLoop ext db contentTypeID fieldMap entryID ((fieldName, value) # rest) =
     (if HasSuffix fieldName ''_media_id''
      then validatePartialLoop ext db contentTypeID fieldMap entryID rest
      else (case fieldMap fieldName of
              None \<Rightarrow> Inl (UnknownField fieldName)
            | Some field \<Rightarrow>
                if value = VNil \<or> value = VString ''''
                then (if Required field then Inl (RequiredEmpty (FieldName field))
                      else validatePartialLoop ext db contentTypeID fieldMap entryID rest)
                else (case checkPresent ext db contentTypeID field value (Some entryID) of
                        Inl err \<Rightarrow> Inl err
                      | Inr _ \<Rightarrow>
                          validatePartialLoop ext db contentTypeID fieldMap entryID rest)))"

definition ValidatePartialUpdate ::
  "Ext \<Rightarrow> DB \<Rightarrow> ContentType \<Rightarrow> fieldmap \<Rightarrow> uint \<Rightarrow> error + unit" where
  "ValidatePartialUpdate ext db ct updatedFields entryID =
     validatePartialLoop ext db (TypeID ct) (fieldMapOf (Fields ct @ SEOFields ct)) entryID
       updatedFields"

section \<open>Entry lifecycle\<close>

text \<open>
  \<open>database.DB.Create(&entry)\<close> gives the row the next key of the table's sequence;
  the store refuses a key that a row already has. \<open>json.Marshal\<close> cannot fail on the
  values of \<open>val\<close>, so that branch of the source has no counterpart.
\<close>

definition CreateContentEntry ::
  "Ext \<Rightarrow> uint \<Rightarrow> uint \<Rightarrow> fieldmap \<Rightarrow> DB \<Rightarrow> (error + ContentEntry) \<times> DB" where
  "CreateContentEntry ext contentTypeID createdBy data db =
     (case contentTypes db contentTypeID of
        None \<Rightarrow> (Inl ContentTypeNotFound, db)
      | Some ct \<Rightarrow>
          (case ValidateContentEntryEnhanced ext db ct data of
             (Inl err, data') \<Rightarrow> (Inl err, db)
           | (Inr _, data') \<Rightarrow>
               let entry = \<lparr>ID = nextEntryID db, ContentTypeID = contentTypeID,
                             Data = Some data', Status = StatusDraft, CreatedBy = createdBy,
                             UpdatedBy = 0, PublishedAt = None, DeletedAt = None\<rparr>
               in if faults db CreateEntry \<or> list_ex (\<lambda>e. ID e = nextEntryID db) (entries db)
                  then (Inl DBError, db)
                  else (Inr entry,
                        db\<lparr>entries := entries db @ [entry],
                           nextEntryID := Suc (nextEntryID db)\<rparr>)))"

definition UpdateEntry ::
  "Ext \<Rightarrow> uint \<Rightarrow> uint \<Rightarrow> fieldmap \<Rightarrow> DB \<Rightarrow> (error + ContentEntry) \<times> DB" where
  "UpdateEntry ext entryID updatedBy data db =
     (case firstEntry db entryID of
        None \<Rightarrow> (Inl EntryNotFound, db)
      | Some entry \<Rightarrow>
          if Status entry = StatusPublished then (Inl PublishedLocked, db)
          else
            (case contentTypes db (ContentTypeID entry) of
               None \<Rightarrow> (Inl ContentTypeNotFound, db)
             | Some ct \<Rightarrow>
                 (case ValidateContentEntryEnhanced ext db ct data of
                    (Inl err, data') \<Rightarrow> (Inl err, db)
                  | (Inr _, data') \<Rightarrow>
                      let entry' = entry\<lparr>Data := Some data', Status := StatusDraft,
                                         UpdatedBy := updatedBy\<rparr>
                      in if faults db SaveEntry then (Inl DBError, db)
                         else (Inr entry', db\<lparr>entries := saveEntry entry' (entries db)\<rparr>))))"

text \<open>
  The handlers are modelled from the point where the request has been parsed into the
  map \<open>data\<close>. Both the create and the update handler filter the map by permission,
  refuse an empty result, and then copy every key of \<open>data\<close> that ends in
  \<open>_media_id\<close> into the filtered map.
\<close>

definition restoreMediaIDs :: "fieldmap \<Rightarrow> fieldmap \<Rightarrow> fieldmap" where
  "restoreMediaIDs data filteredData =
     fold (\<lambda>(k, v) acc. if HasSuffix k ''_media_id'' then AList.update k v acc else acc)
       data filteredData"

definition permittedPayload ::
  "DB \<Rightarrow> uint \<Rightarrow> string \<Rightarrow> fieldmap \<Rightarrow> uint \<Rightarrow> error + fieldmap" where
  "permittedPayload db userID action data contentTypeID =
     (case FilterFieldsByPermission db userID action data contentTypeID of
        Inl err \<Rightarrow> Inl err
      | Inr filteredData \<Rightarrow>
          if length filteredData = 0 then Inl NoFieldPermitted
          else Inr (restoreMediaIDs data filteredData))"

definition CreateEntryHandler ::
  "Ext \<Rightarrow> uint \<Rightarrow> uint \<Rightarrow> fieldmap \<Rightarrow> DB \<Rightarrow> (error + ContentEntry) \<times> DB" where
  "CreateEntryHandler ext contentTypeID userID data db =
     (case contentTypes db contentTypeID of
        None \<Rightarrow> (Inl ContentTypeNotFound, db)
      | Some ct \<Rightarrow>
          (case permittedPayload db userID ''create'' data contentTypeID of
             Inl err \<Rightarrow> (Inl err, db)
           | Inr filteredData \<Rightarrow> CreateContentEntry ext contentTypeID userID filteredData db))"

text \<open>
  The update handler merges the validated fields into the stored map; when the
  stored column does not decode to an object the Go map is nil and the first write to
  it panics.
\<close>

definition UpdateEntryHandler ::
  "Ext \<Rightarrow> uint \<Rightarrow> uint \<Rightarrow> fieldmap \<Rightarrow> DB \<Rightarrow> (error + ContentEntry) \<times> DB" where
  "UpdateEntryHandler ext entryID userID data db =
     (case firstEntry db entryID of
        None \<Rightarrow> (Inl EntryNotFound, db)
      | Some entry \<Rightarrow>
          if Status entry = StatusPublished then (Inl PublishedLocked, db)
          else
            (case contentTypes db (ContentTypeID entry) of
               None \<Rightarrow> (Inl ContentTypeNotFound, db)
             | Some ct \<Rightarrow>
                 if length data = 0 then (Inl NoDataProvided, db)
                 else
                   (case permittedPayload db userID ''update'' data (ContentTypeID entry) of
                      Inl err \<Rightarrow> (Inl err, db)
                    | Inr filteredData \<Rightarrow>
                        (case ValidatePartialUpdate ext db ct filteredData entryID of
                           Inl err \<Rightarrow> (Inl err, db)
                         | Inr _ \<Rightarrow>
                             (case Data entry of
                                None \<Rightarrow> (Inl Panic, db)
                              | Some existingData \<Rightarrow>
                                  let merged = fold (\<lambda>(k, v) acc. AList.update k v acc)
                                                 filteredData existingData;
                                      entry' = entry\<lparr>Data := Some merged,
                                                     Status := StatusDraft,
                                                     UpdatedBy := userID\<rparr>
                                  in if faults db SaveEntry then (Inl DBError, db)
                                     else (Inr entry',
                                           db\<lparr>entries := saveEntry entry' (entries db)\<rparr>))))))"

text \<open>
  \<open>database.DB.Delete(&entry)\<close> on a model with a \<open>DeletedAt\<close> column is a soft
  delete: it stamps the live row with this key and removes nothing.
\<close>

definition DeleteEntryHandler :: "timestamp \<Rightarrow> uint \<Rightarrow> DB \<Rightarrow> (error + unit) \<times> DB" where
  "DeleteEntryHandler now entryID db =
     (case firstEntry db entryID of
        None \<Rightarrow> (Inl EntryNotFound, db)
      | Some entry \<Rightarrow>
          if Status entry = StatusPublished then (Inl PublishedLocked, db)
          else if faults db DeleteEntry then (Inl DBError, db)
          else (Inr (),
                db\<lparr>entries := map (\<lambda>e. if ID e = ID entry \<and> DeletedAt e = None
                                         then e\<lparr>DeletedAt := Some now\<rparr> else e)
                                  (entries db)\<rparr>))"

section \<open>The operations that write entries\<close>

text \<open>
  Every function of the program that writes the entries table, as one step of a
  machine over the store. An operation that reads the clock carries the reading.
\<close>

datatype operation =
    OpCreateEntry uint uint fieldmap
  | OpCreateEntryHandler uint uint fieldmap
  | OpUpdateEntry uint uint fieldmap
  | OpUpdateEntryHandler uint uint fieldmap
  | OpDeleteEntry timestamp uint
  | OpChangeStatus timestamp uint uint string string
  | OpRequestReview timestamp uint uint string
  | OpApproveEntry timestamp uint uint string
  | OpRejectEntry timestamp uint uint string
  | OpPublishEntry timestamp uint uint string

fun step :: "Ext \<Rightarrow> operation \<Rightarrow> DB \<Rightarrow> DB" where
  "step ext (OpCreateEntry contentTypeID createdBy data) db =
     snd (CreateContentEntry ext contentTypeID createdBy data db)"
| "step ext (OpCreateEntryHandler contentTypeID userID data) db =
     snd (CreateEntryHandler ext contentTypeID userID data db)"
| "step ext (OpUpdateEntry entryID updatedBy data) db =
     snd (UpdateEntry ext entryID updatedBy data db)"
| "step ext (OpUpdateEntryHandler entryID userID data) db =
     snd (UpdateEntryHandler ext entryID userID data db)"
| "step ext (OpDeleteEntry now entryID) db =
     snd (DeleteEntryHandler now entryID db)"
| "step ext (OpChangeStatus now entryID userID toStatus comment) db =
     snd (ChangeWorkflowStatus now entryID userID toStatus comment db)"
| "step ext (OpRequestReview now entryID userID comment) db =
     snd (RequestReview now entryID userID comment db)"
| "step ext (OpApproveEntry now entryID userID comment) db =
     snd (ApproveEntry now entryID userID comment db)"
| "step ext (OpRejectEntry now entryID userID comment) db =
     snd (RejectEntry now entryID userID comment db)"
| "step ext (OpPublishEntry now entryID userID comment) db =
     snd (PublishEntry now entryID userID comment db)"

definition run :: "Ext \<Rightarrow> operation list \<Rightarrow> DB \<Rightarrow> DB" where
  "run ext ops db = fold (step ext) ops db"

text \<open>
  The operations that ask the workflow engine to move an entry to \<open>published\<close>, and
  the clock reading they carry.
\<close>

fun publishRequest :: "operation \<Rightarrow> uint \<Rightarrow> timestamp option" where
  "publishRequest (OpChangeStatus now entryID userID toStatus comment) target =
     (if entryID = target \<and> toStatus = StatusPublished then Some now else None)"
| "publishRequest (OpPublishEntry now entryID userID comment) target =
     (if entryID = target then Some now else None)"
| "publishRequest _ target = None"

text \<open>
  The stored \<open>PublishedAt\<close> of the row with a key, soft-deleted or not; \<open>None\<close>
  when the column is null or there is no such row.
\<close>

definition publishedAtOf :: "DB \<Rightarrow> uint \<Rightarrow> timestamp option" where
  "publishedAtOf db entryID =
     (case find (\<lambda>e. ID e = entryID) (entries db) of
        None \<Rightarrow> None
      | Some e \<Rightarrow> PublishedAt e)"

section \<open>Notions used in the statements\<close>

text \<open>
  The same role under another field scope: every permission of the role is given the
  scope, and nothing else changes. \<open>setUserScope\<close> does this to one user of the store.
\<close>

definition withFieldScope :: "string \<Rightarrow> Role \<Rightarrow> Role" where
  "withFieldScope scope role =
     role\<lparr>Permissions := map (\<lambda>p. p\<lparr>FieldScope := scope\<rparr>) (Permissions role)\<rparr>"

definition setUserScope :: "string \<Rightarrow> uint \<Rightarrow> DB \<Rightarrow> DB" where
  "setUserScope scope userID db =
     db\<lparr>users := (users db)(userID :=
        map_option (\<lambda>u. u\<lparr>UserRole := map_option (withFieldScope scope) (UserRole u)\<rparr>)
          (users db userID))\<rparr>"

definition fieldNames :: "ContentType \<Rightarrow> string set" where
  "fieldNames ct = FieldName ` set (Fields ct @ SEOFields ct)"

text \<open>
  The completeness check in the words of the specification: the role holds a
  permission for each of the four actions of each of the three modules.
\<close>

definition hasPermissionFor :: "Role \<Rightarrow> string \<Rightarrow> string \<Rightarrow> bool" where
  "hasPermissionFor role moduleName action =
     list_ex (\<lambda>p. Module p = moduleName \<and> Action p = action) (Permissions role)"

definition holdsTwelvePermissions :: "Role \<Rightarrow> bool" where
  "holdsTwelvePermissions role =
     list_all (\<lambda>moduleName.
        list_all (\<lambda>action. hasPermissionFor role moduleName action)
          [''create'', ''read'', ''update'', ''delete''])
       [''ContentEntry'', ''Media'', ''SEO'']"

text \<open>The flag table of \<open>IsFullAccessRole\<close> with given flags, for the proofs.\<close>

definition flagsTable :: "(string \<Rightarrow> string \<Rightarrow> bool) \<Rightarrow> (string \<times> (string \<times> bool) list) list" where
  "flagsTable f =
     map (\<lambda>m. (m, map (\<lambda>a. (a, f m a)) [''create'', ''read'', ''update'', ''delete'']))
       [''ContentEntry'', ''Media'', ''SEO'']"

text \<open>
  The rune count the specification asks for, to compare with the byte count of the
  code: in well-formed UTF-8 every code point has one byte that is not a continuation
  byte (a byte from 0x80 to 0xBF).
\<close>

definition isContinuationByte :: "char \<Rightarrow> bool" where
  "isContinuationByte c = (128 \<le> (of_char c :: nat) \<and> (of_char c :: nat) < 192)"

definition specRuneCount :: "string \<Rightarrow> nat" where
  "specRuneCount s = length (filter (\<lambda>c. \<not> isContinuationByte c) s)"

text \<open>
  What \<open>ValidatePartialUpdate\<close> requires of one submitted key and value for the
  loop to go on to the next key.
\<close>

definition partialEntryAccepted ::
  "Ext \<Rightarrow> DB \<Rightarrow> ContentType \<Rightarrow> uint \<Rightarrow> string \<times> val \<Rightarrow> bool" where
  "partialEntryAccepted ext db ct entryID entry =
     (case entry of (fieldName, value) \<Rightarrow>
        HasSuffix fieldName ''_media_id''
        \<or> (case fieldMapOf (Fields ct @ SEOFields ct) fieldName of
              None \<Rightarrow> False
            | Some field \<Rightarrow>
                if value = VNil \<or> value = VString '''' then \<not> Required field
                else checkPresent ext db (TypeID ct) field value (Some entryID) = Inr ()))"

text \<open>What one operation does to the entries table: one of four shapes.\<close>

definition keepsOrPublishes :: "operation \<Rightarrow> uint \<Rightarrow> ContentEntry \<Rightarrow> ContentEntry \<Rightarrow> bool" where
  "keepsOrPublishes op i entry entry' =
     (PublishedAt entry' = PublishedAt entry
      \<or> (publishRequest op i \<noteq> None \<and> PublishedAt entry' = publishRequest op i))"

definition tableStep :: "operation \<Rightarrow> DB \<Rightarrow> ContentEntry list \<Rightarrow> bool" where
  "tableStep op db rows' =
     (rows' = entries db
      \<or> (\<exists>i entry entry'. firstEntry db i = Some entry \<and> ID entry' = i
            \<and> rows' = saveEntry entry' (entries db) \<and> keepsOrPublishes op i entry entry')
      \<or> (\<exists>new. rows' = entries db @ [new] \<and> PublishedAt new = None
            \<and> \<not> list_ex (\<lambda>e. ID e = ID new) (entries db))
      \<or> (\<exists>i now. rows' = map (\<lambda>e. if ID e = i \<and> DeletedAt e = None
                                     then e\<lparr>DeletedAt := Some now\<rparr> else e) (entries db)))"

text \<open>
  What the loop asks of one field when it writes nothing: an empty value only for a
  field that is not required, and a value that passes the checks otherwise.
\<close>

definition fieldPasses :: "Ext \<Rightarrow> DB \<Rightarrow> uint \<Rightarrow> fieldmap \<Rightarrow> ContentField \<Rightarrow> bool" where
  "fieldPasses ext db c d f =
     (if isEmptyValue (map_of d (FieldName f)) then \<not> Required f
      else checkPresent ext db c f (the (map_of d (FieldName f))) None = Inr ())"

section \<open>Example inputs\<close>

text \<open>
  Concrete stores and requests on which the theorems below are instantiated. The
  library functions of \<open>exampleExt\<close> accept every string, and its containment test
  compares the stored value under the name with the candidate.
\<close>

definition exampleExt :: Ext where
  "exampleExt =
     \<lparr>regexMatch = (\<lambda>pattern s. Some True),
      parseRequestURI = (\<lambda>s. True),
      parseDate = (\<lambda>s. True),
      jsonbContains = (\<lambda>data name value.
         case data of None \<Rightarrow> False | Some m \<Rightarrow> map_of m name = Some value)\<rparr>"

definition plainField :: "string \<Rightarrow> string \<Rightarrow> bool \<Rightarrow> ContentField" where
  "plainField name type seo =
     \<lparr>FieldName = name, FieldType = type, Required = False, IsSEO = seo, Unique = False,
      MaxLength = None, MinLength = None, Pattern = [], MinValue = None, MaxValue = None,
      DefaultValue = []\<rparr>"

definition articleType :: ContentType where
  "articleType =
     \<lparr>TypeID = 2,
      Fields = [plainField ''title'' ''string'' False, plainField ''image'' ''media'' False],
      SEOFields = [plainField ''meta_title'' ''string'' True]\<rparr>"

definition plainPermission :: "string \<Rightarrow> string \<Rightarrow> string \<Rightarrow> Permission" where
  "plainPermission moduleName action scope =
     \<lparr>Module = moduleName, Action = action, FieldScope = scope, AllowedFields = None,
      DeniedFields = None, ContentTypeIDs = None\<rparr>"

definition editorRole :: Role where
  "editorRole =
     \<lparr>RoleName = ''editor'',
      Permissions = [plainPermission ''ContentEntry'' ''create'' ''all'',
                     plainPermission ''ContentEntry'' ''update'' ''seo_only'']\<rparr>"

definition managerRole :: Role where
  "managerRole =
     \<lparr>RoleName = ''manager'',
      Permissions = [plainPermission ''ContentEntry'' ''read'' ''all'']\<rparr>"

definition adminRole :: Role where
  "adminRole = \<lparr>RoleName = ''admin'', Permissions = []\<rparr>"

definition editorUser :: User where
  "editorUser = \<lparr>UserRole = Some editorRole\<rparr>"

definition managerUser :: User where
  "managerUser = \<lparr>UserRole = Some managerRole\<rparr>"

definition adminUser :: User where
  "adminUser = \<lparr>UserRole = Some adminRole\<rparr>"

definition exampleEntry :: "uint \<Rightarrow> WorkflowStatus \<Rightarrow> ContentEntry" where
  "exampleEntry entryID status =
     \<lparr>ID = entryID, ContentTypeID = 2, Data = Some [(''title'', VString ''Hello'')],
      Status = status, CreatedBy = 11, UpdatedBy = 0, PublishedAt = None, DeletedAt = None\<rparr>"

text \<open>
  User 14 of \<open>exampleDB\<close>: a role that is not named admin and holds the twelve
  permissions, each with the field scope \<open>seo_only\<close>.
\<close>

definition ownerRole :: Role where
  "ownerRole =
     \<lparr>RoleName = ''owner'',
      Permissions = concat (map (\<lambda>m. map (\<lambda>a. plainPermission m a ''seo_only'')
                                      [''create'', ''read'', ''update'', ''delete''])
                            [''ContentEntry'', ''Media'', ''SEO''])\<rparr>"

definition ownerUser :: User where
  "ownerUser = \<lparr>UserRole = Some ownerRole\<rparr>"

text \<open>
  User 15 of \<open>exampleDB\<close>: may update entries, with the field \<open>title\<close> denied.
\<close>

definition productEditorRole :: Role where
  "productEditorRole =
     \<lparr>RoleName = ''product_editor'',
      Permissions = [\<lparr>Module = ''ContentEntry'', Action = ''update'', FieldScope = ''custom'',
                      AllowedFields = None, DeniedFields = Some [''title''],
                      ContentTypeIDs = None\<rparr>]\<rparr>"

definition productEditorUser :: User where
  "productEditorUser = \<lparr>UserRole = Some productEditorRole\<rparr>"

text \<open>
  The map the handlers build for a media field given by reference: the URL under the
  field's name and the key of the media row under the name with \<open>_media_id\<close>.
\<close>

definition mediaData :: fieldmap where
  "mediaData = [(''image'', VString ''http://cdn/1.png''), (''image_media_id'', VUint 5)]"

text \<open>
  Users 11, 12 and 13 are an editor, a manager and an admin; entry 7 is a draft, entry 8
  is in review, entry 9 is approved and entry 6 was published at time 50.
\<close>

definition exampleDB :: DB where
  "exampleDB =
     \<lparr>users = (\<lambda>userID. if userID = 11 then Some editorUser
                         else if userID = 12 then Some managerUser
                         else if userID = 13 then Some adminUser
                         else if userID = 14 then Some ownerUser
                         else if userID = 15 then Some productEditorUser else None),
      contentTypes = (\<lambda>contentTypeID. if contentTypeID = 2 then Some articleType else None),
      entries = [exampleEntry 7 StatusDraft, exampleEntry 8 StatusInReview,
                 exampleEntry 9 StatusApproved,
                 (exampleEntry 6 StatusPublished)\<lparr>PublishedAt := Some 50\<rparr>],
      nextEntryID = 10,
      histories = [],
      faults = (\<lambda>statement. False)\<rparr>"

text \<open>
  A string field of at most one character, a string field of at least two, and the
  string of the single code point U+00E9, which is two bytes in UTF-8.
\<close>

definition atMostOneField :: ContentField where
  "atMostOneField = (plainField ''initial'' ''string'' False)\<lparr>MaxLength := Some 1\<rparr>"

definition atLeastTwoField :: ContentField where
  "atLeastTwoField = (plainField ''code'' ''string'' False)\<lparr>MinLength := Some 2\<rparr>"

definition eAcute :: string where
  "eAcute = [CHR 0xC3, CHR 0xA9]"

text \<open>A content type with one required string field.\<close>

definition noteType :: ContentType where
  "noteType =
     \<lparr>TypeID = 3,
      Fields = [(plainField ''title'' ''string'' False)\<lparr>Required := True\<rparr>,
                plainField ''body'' ''text'' False],
      SEOFields = []\<rparr>"


text \<open>A submitted map that sets the title.\<close>

definition newTitle :: fieldmap where
  "newTitle = [(''title'', VString ''New'')]"

text \<open>
  A content type as the callers load it, every field in both lists: a string field
  whose default is \<open>none\<close> and a text field.
\<close>

definition loadedLabelType :: ContentType where
  "loadedLabelType =
     \<lparr>TypeID = 5,
      Fields = [(plainField ''label'' ''string'' False)\<lparr>DefaultValue := ''none''\<rparr>,
                plainField ''body'' ''text'' False],
      SEOFields = [(plainField ''label'' ''string'' False)\<lparr>DefaultValue := ''none''\<rparr>,
                   plainField ''body'' ''text'' False]\<rparr>"

section \<open>Workflow transitions\<close>

lemmas status_defs =
  StatusDraft_def StatusInReview_def StatusReadyForApproval_def StatusApproved_def
  StatusPublished_def StatusRejected_def

lemma isValidTransition_table:
  "isValidTransition fromStatus toStatus roleName = inSpecTable fromStatus toStatus roleName"
  unfolding isValidTransition_def inSpecTable_def transitions_def specTransitionTable_def
    status_defs
  by simp

text \<open>
  Claim C1. For an entry and a caller that exist, \<open>ChangeWorkflowStatus\<close> goes on to
  write exactly when (current status, target status, role name) is a row of the
  transition table of the specification. For every other triple it returns
  \<open>InvalidTransition\<close> and the store is unchanged: no entry is written and no history
  row is appended. For a triple of the table the entry is saved with the new status and
  exactly one history row (from, to, actor, comment) is appended, whatever the comment,
  and the call succeeds; the only other outcome is an error of the store itself on one
  of the two writes.
\<close>

theorem ChangeWorkflowStatus_transition_table:
  assumes "firstEntry db entryID = Some entry"
    and "users db userID = Some user"
    and "UserRole user = Some role"
  shows "ChangeWorkflowStatus now entryID userID toStatus comment db =
     (if \<not> inSpecTable (Status entry) toStatus (RoleName role)
      then (Inl (InvalidTransition (Status entry) toStatus (RoleName role)), db)
      else if faults db SaveEntry then (Inl DBError, db)
      else if faults db CreateHistory
      then (Inl DBError,
            db\<lparr>entries := saveEntry
               (entry\<lparr>Status := toStatus,
                       PublishedAt := (if toStatus = StatusPublished then Some now
                                       else PublishedAt entry)\<rparr>) (entries db)\<rparr>)
      else (Inr (entry\<lparr>Status := toStatus,
                       PublishedAt := (if toStatus = StatusPublished then Some now
                                       else PublishedAt entry)\<rparr>),
            db\<lparr>entries := saveEntry
               (entry\<lparr>Status := toStatus,
                       PublishedAt := (if toStatus = StatusPublished then Some now
                                       else PublishedAt entry)\<rparr>) (entries db),
               histories := histories db @
                 [\<lparr>EntryID = entryID, FromStatus = Status entry, ToStatus = toStatus,
                   ChangedBy = userID, Comment = comment\<rparr>]\<rparr>))"
  using assms
  by (simp add: ChangeWorkflowStatus_def isValidTransition_table Let_def)

theorem ChangeWorkflowStatus_transition_table_witness:
  "firstEntry exampleDB 7 = Some (exampleEntry 7 StatusDraft)
   \<and> users exampleDB 11 = Some editorUser
   \<and> users exampleDB 12 = Some managerUser
   \<and> map_option RoleName (UserRole editorUser) = Some ''editor''
   \<and> map_option RoleName (UserRole managerUser) = Some ''manager''
   \<and> fst (ChangeWorkflowStatus 100 7 11 StatusInReview [] exampleDB) =
         Inr ((exampleEntry 7 StatusDraft)\<lparr>Status := StatusInReview\<rparr>)
   \<and> histories (snd (ChangeWorkflowStatus 100 7 11 StatusInReview [] exampleDB)) =
         [\<lparr>EntryID = 7, FromStatus = StatusDraft, ToStatus = StatusInReview,
           ChangedBy = 11, Comment = []\<rparr>]
   \<and> ChangeWorkflowStatus 100 7 12 StatusApproved ''ok'' exampleDB =
         (Inl (InvalidTransition StatusDraft StatusApproved ''manager''), exampleDB)"
proof -
  have e: "firstEntry exampleDB 7 = Some (exampleEntry 7 StatusDraft)"
    by (simp add: firstEntry_def exampleDB_def exampleEntry_def)
  have u1: "users exampleDB 11 = Some editorUser" and u2: "users exampleDB 12 = Some managerUser"
    by (simp_all add: exampleDB_def)
  have r1: "UserRole editorUser = Some editorRole"
    by (simp add: editorUser_def)
  have r2: "UserRole managerUser = Some managerRole"
    by (simp add: managerUser_def)
  note ok = ChangeWorkflowStatus_transition_table [OF e u1 r1, of 100 StatusInReview "[]"]
  note bad = ChangeWorkflowStatus_transition_table [OF e u2 r2, of 100 StatusApproved "''ok''"]
  show ?thesis
    using e u1 u2 r1 r2 ok bad
    by (simp add: inSpecTable_def specTransitionTable_def status_defs exampleEntry_def
        exampleDB_def editorRole_def managerRole_def)
qed

section \<open>Full access\<close>

lemma requiredPerms_flags: "requiredPerms = flagsTable (\<lambda>m a. False)"
  by (simp add: requiredPerms_def flagsTable_def)

lemma markPerm_flags:
  "markPerm p (flagsTable f) = flagsTable (\<lambda>m a. f m a \<or> (m = Module p \<and> a = Action p))"
  by (simp add: markPerm_def flagsTable_def)

lemma fold_markPerm_flags:
  "fold markPerm ps (flagsTable f) =
     flagsTable (\<lambda>m a. f m a \<or> (\<exists>p\<in>set ps. Module p = m \<and> Action p = a))"
proof (induction ps arbitrary: f)
  case Nil
  show ?case by simp
next
  case (Cons p ps)
  have "(\<lambda>m a. (f m a \<or> m = Module p \<and> a = Action p)
                \<or> (\<exists>q\<in>set ps. Module q = m \<and> Action q = a))
      = (\<lambda>m a. f m a \<or> (\<exists>q\<in>set (p # ps). Module q = m \<and> Action q = a))"
    by (intro ext) auto
  then show ?case by (simp add: markPerm_flags Cons.IH)
qed

lemma IsFullAccessRole_iff:
  assumes "UserRole user = Some role"
  shows "IsFullAccessRole user \<longleftrightarrow> RoleName role = ''admin'' \<or> holdsTwelvePermissions role"
proof -
  have "fold markPerm (Permissions role) requiredPerms =
      flagsTable (\<lambda>m a. \<exists>p\<in>set (Permissions role). Module p = m \<and> Action p = a)"
    by (simp add: requiredPerms_flags fold_markPerm_flags)
  then show ?thesis
    using assms
    by (simp add: IsFullAccessRole_def flagsTable_def holdsTwelvePermissions_def
        hasPermissionFor_def list_ex_iff)
qed

text \<open>
  Claim C5. A user whose role holds all four ContentEntry actions, all four Media
  actions and all four SEO actions gets the submitted map back unchanged from
  \<open>FilterFieldsByPermission\<close>, for every action, content type and map.
\<close>

theorem FilterFieldsByPermission_twelve_permissions:
  assumes "users db userID = Some user"
    and "UserRole user = Some role"
    and "holdsTwelvePermissions role"
  shows "FilterFieldsByPermission db userID action data contentTypeID = Inr data"
  using assms IsFullAccessRole_iff [OF assms(2)]
  by (simp add: FilterFieldsByPermission_def)

theorem FilterFieldsByPermission_twelve_permissions_witness:
  "users exampleDB 14 = Some ownerUser
   \<and> UserRole ownerUser = Some ownerRole
   \<and> RoleName ownerRole = ''owner''
   \<and> holdsTwelvePermissions ownerRole
   \<and> map FieldScope (Permissions ownerRole) = replicate 12 ''seo_only''
   \<and> FilterFieldsByPermission exampleDB 14 ''update''
        [(''title'', VString ''x''), (''unknown_key'', VBool True)] 2 =
        Inr [(''title'', VString ''x''), (''unknown_key'', VBool True)]"
proof -
  have u: "users exampleDB 14 = Some ownerUser"
    by (simp add: exampleDB_def)
  have r: "UserRole ownerUser = Some ownerRole"
    by (simp add: ownerUser_def)
  have h: "holdsTwelvePermissions ownerRole"
    by (simp add: holdsTwelvePermissions_def hasPermissionFor_def ownerRole_def
        plainPermission_def)
  have s: "map FieldScope (Permissions ownerRole) = replicate 12 ''seo_only''"
    by (simp add: ownerRole_def plainPermission_def eval_nat_numeral)
  have n: "RoleName ownerRole = ''owner''"
    by (simp add: ownerRole_def)
  show ?thesis
    using u r n h s FilterFieldsByPermission_twelve_permissions [OF u r h]
    by simp
qed

text \<open>
  Claim C10. A user whose role is named \<open>admin\<close> is a full-access user whatever
  permissions the role holds: \<open>IsFullAccessRole\<close> is true,
  \<open>FilterFieldsByPermission\<close> returns the submitted map unchanged and
  \<open>CanAccessField\<close> answers true for every field name and content type.
\<close>

theorem admin_role_name_is_full_access:
  assumes "users db userID = Some user"
    and "UserRole user = Some role"
    and "RoleName role = ''admin''"
  shows "IsFullAccessRole user
    \<and> FilterFieldsByPermission db userID action data contentTypeID = Inr data
    \<and> CanAccessField db userID fieldName contentTypeID = Inr True"
  using assms
  by (simp add: IsFullAccessRole_def FilterFieldsByPermission_def CanAccessField_def)

theorem admin_role_name_is_full_access_witness:
  "users exampleDB 13 = Some adminUser
   \<and> UserRole adminUser = Some adminRole
   \<and> RoleName adminRole = ''admin''
   \<and> Permissions adminRole = []
   \<and> \<not> holdsTwelvePermissions adminRole
   \<and> IsFullAccessRole adminUser
   \<and> FilterFieldsByPermission exampleDB 13 ''delete'' [(''anything'', VNil)] 99 =
        Inr [(''anything'', VNil)]
   \<and> CanAccessField exampleDB 13 ''no_such_field'' 99 = Inr True"
proof -
  have u: "users exampleDB 13 = Some adminUser"
    by (simp add: exampleDB_def)
  have r: "UserRole adminUser = Some adminRole"
    by (simp add: adminUser_def)
  have n: "RoleName adminRole = ''admin''" and p: "Permissions adminRole = []"
    by (simp_all add: adminRole_def)
  have h: "\<not> holdsTwelvePermissions adminRole"
    by (simp add: holdsTwelvePermissions_def hasPermissionFor_def adminRole_def)
  show ?thesis
    using u r n p h
      admin_role_name_is_full_access [OF u r n, of "''delete''" "[(''anything'', VNil)]" 99
        "''no_such_field''"]
    by simp
qed

section \<open>Field scopes\<close>

lemma contentTypeExcluded_scope [simp]:
  "contentTypeExcluded (p\<lparr>FieldScope := scope\<rparr>) contentTypeID = contentTypeExcluded p contentTypeID"
  by (simp add: contentTypeExcluded_def)

lemma findUserPermission_scope:
  "findUserPermission (map (\<lambda>p. p\<lparr>FieldScope := scope\<rparr>) perms) action contentTypeID =
     map_option (\<lambda>p. p\<lparr>FieldScope := scope\<rparr>) (findUserPermission perms action contentTypeID)"
  by (induction perms) simp_all

lemma holdsTwelvePermissions_scope [simp]:
  "holdsTwelvePermissions (withFieldScope scope role) = holdsTwelvePermissions role"
  by (simp add: holdsTwelvePermissions_def hasPermissionFor_def withFieldScope_def list_ex_iff)

lemma RoleName_withFieldScope [simp]: "RoleName (withFieldScope scope role) = RoleName role"
  by (simp add: withFieldScope_def)

lemma IsFullAccessRole_scope:
  "IsFullAccessRole (user\<lparr>UserRole := map_option (withFieldScope scope) (UserRole user)\<rparr>) =
     IsFullAccessRole user"
proof (cases "UserRole user")
  case None
  then show ?thesis by (simp add: IsFullAccessRole_def)
next
  case (Some role)
  have "UserRole (user\<lparr>UserRole := map_option (withFieldScope scope) (UserRole user)\<rparr>) =
      Some (withFieldScope scope role)"
    using Some by simp
  from IsFullAccessRole_iff [OF this] IsFullAccessRole_iff [OF Some]
  show ?thesis by simp
qed

text \<open>What the filter returns for a user that is not a full-access user.\<close>

lemma FilterFieldsByPermission_scoped:
  assumes "users db userID = Some user" and "\<not> IsFullAccessRole user"
  shows "FilterFieldsByPermission (setUserScope scope userID db) userID action data contentTypeID =
    (case UserRole user of
       None \<Rightarrow> Inl Panic
     | Some role \<Rightarrow>
        (case findUserPermission (Permissions role) action contentTypeID of
           None \<Rightarrow> Inl NoPermission
         | Some perm \<Rightarrow>
            (case contentTypes db contentTypeID of
               None \<Rightarrow> Inl ContentTypeNotFound
             | Some ct \<Rightarrow>
                 if scope = ''custom'' \<and> decodedList (AllowedFields perm) \<noteq> []
                 then Inr (filter (\<lambda>(k, v). k \<in> set (decodedList (AllowedFields perm))) data)
                 else if scope = ''custom'' \<and> decodedList (DeniedFields perm) \<noteq> []
                 then Inr (filter (\<lambda>(k, v). k \<notin> set (decodedList (DeniedFields perm))) data)
                 else Inr (filter (\<lambda>(k, v). keepByScope (if scope = [] then ''all'' else scope)
                                     (Fields ct @ SEOFields ct) k) data))))"
  using assms
  by (auto simp: FilterFieldsByPermission_def setUserScope_def IsFullAccessRole_scope
      withFieldScope_def findUserPermission_scope Let_def
      split: option.splits)

lemma keepByScope_all:
  "keepByScope ''all'' allFields k \<longleftrightarrow> k \<in> FieldName ` set allFields"
  by (auto simp: keepByScope_def find_None_iff find_Some_iff split: option.splits)

lemma keepByScope_imp_all:
  "keepByScope scope allFields k \<Longrightarrow> keepByScope ''all'' allFields k"
  by (auto simp: keepByScope_def split: option.splits)


text \<open>
  Claim C2, as amended. Take a user that is not a full-access user and give every
  permission of the role one field scope. If the filter returns a map under that
  scope, it returns a map under the scope \<open>all\<close> as well, and the keys it returns
  under \<open>all\<close> are exactly the submitted keys that name a field of the content type.
  Under \<open>seo_only\<close> and \<open>non_seo_only\<close> every returned key is returned under \<open>all\<close>.
  Under any scope, \<open>custom\<close> included, every returned key that names a field of the
  content type is returned under \<open>all\<close>.
\<close>

theorem FilterFieldsByPermission_all_scope_superset:
  assumes "users db userID = Some user"
    and "\<not> IsFullAccessRole user"
    and "FilterFieldsByPermission (setUserScope scope userID db) userID action data
           contentTypeID = Inr restricted"
  shows "\<exists>ct full. contentTypes db contentTypeID = Some ct
    \<and> FilterFieldsByPermission (setUserScope ''all'' userID db) userID action data
          contentTypeID = Inr full
    \<and> fst ` set full = fst ` set data \<inter> fieldNames ct
    \<and> fst ` set restricted \<inter> fieldNames ct \<subseteq> fst ` set full
    \<and> (scope = ''seo_only'' \<or> scope = ''non_seo_only''
         \<longrightarrow> fst ` set restricted \<subseteq> fst ` set full)"
proof -
  note scoped = FilterFieldsByPermission_scoped [OF assms(1,2)]
  from assms(3) obtain role perm ct where
    role: "UserRole user = Some role"
    and perm: "findUserPermission (Permissions role) action contentTypeID = Some perm"
    and ct: "contentTypes db contentTypeID = Some ct"
    by (auto simp: scoped split: option.splits)
  let ?all = "filter (\<lambda>(k, v). keepByScope ''all'' (Fields ct @ SEOFields ct) k) data"
  have full: "FilterFieldsByPermission (setUserScope ''all'' userID db) userID action data
      contentTypeID = Inr ?all"
    by (simp add: scoped role perm ct)
  have keys: "fst ` set ?all = fst ` set data \<inter> fieldNames ct"
    by (auto simp: keepByScope_all fieldNames_def image_iff)
  have sub: "set restricted \<subseteq> set data"
    using assms(3) by (auto simp: scoped role perm ct split: if_splits)
  have part: "fst ` set restricted \<inter> fieldNames ct \<subseteq> fst ` set ?all"
    using sub unfolding keys by auto
  have seo: "fst ` set restricted \<subseteq> fst ` set ?all"
    if "scope = ''seo_only'' \<or> scope = ''non_seo_only''"
  proof -
    have "restricted =
        filter (\<lambda>(k, v). keepByScope scope (Fields ct @ SEOFields ct) k) data"
      using that assms(3) by (auto simp: scoped role perm ct)
    then show ?thesis
      using keepByScope_imp_all [of scope "Fields ct @ SEOFields ct"] by force
  qed
  show ?thesis
    using ct full keys part seo by blast
qed

theorem FilterFieldsByPermission_all_scope_superset_witness:
  "users exampleDB 11 = Some editorUser
   \<and> \<not> IsFullAccessRole editorUser
   \<and> FilterFieldsByPermission (setUserScope ''seo_only'' 11 exampleDB) 11 ''update''
        [(''title'', VString ''x''), (''meta_title'', VString ''y'')] 2 =
        Inr [(''meta_title'', VString ''y'')]
   \<and> (\<exists>ct full. contentTypes exampleDB 2 = Some ct
        \<and> FilterFieldsByPermission (setUserScope ''all'' 11 exampleDB) 11 ''update''
             [(''title'', VString ''x''), (''meta_title'', VString ''y'')] 2 = Inr full
        \<and> fst ` set full = {''title'', ''meta_title''} \<inter> fieldNames ct
        \<and> {''meta_title''} \<subseteq> fst ` set full)"
proof -
  have u: "users exampleDB 11 = Some editorUser"
    by (simp add: exampleDB_def)
  have r: "UserRole editorUser = Some editorRole"
    by (simp add: editorUser_def)
  have nf: "\<not> IsFullAccessRole editorUser"
    by (simp add: IsFullAccessRole_iff [OF r] holdsTwelvePermissions_def hasPermissionFor_def
        editorRole_def plainPermission_def)
  have ct: "contentTypes exampleDB 2 = Some articleType"
    by (simp add: exampleDB_def)
  have f: "FilterFieldsByPermission (setUserScope ''seo_only'' 11 exampleDB) 11 ''update''
        [(''title'', VString ''x''), (''meta_title'', VString ''y'')] 2 =
        Inr [(''meta_title'', VString ''y'')]"
    by (simp add: FilterFieldsByPermission_scoped [OF u nf] r ct editorRole_def
        plainPermission_def contentTypeExcluded_def decodedList_def keepByScope_def
        articleType_def plainField_def)
  show ?thesis
    using u nf f FilterFieldsByPermission_all_scope_superset [OF u nf f]
    by auto
qed

theorem FilterFieldsByPermission_all_scope_superset_counterexample:
  "users exampleDB 15 = Some productEditorUser
   \<and> \<not> IsFullAccessRole productEditorUser
   \<and> FilterFieldsByPermission (setUserScope ''custom'' 15 exampleDB) 15 ''update'' mediaData 2 =
        Inr [(''image'', VString ''http://cdn/1.png''), (''image_media_id'', VUint 5)]
   \<and> FilterFieldsByPermission (setUserScope ''all'' 15 exampleDB) 15 ''update'' mediaData 2 =
        Inr [(''image'', VString ''http://cdn/1.png'')]
   \<and> \<not> (fst ` set [(''image'', VString ''http://cdn/1.png''), (''image_media_id'', VUint 5)]
          \<subseteq> fst ` set [(''image'', VString ''http://cdn/1.png'')])"
proof -
  have u: "users exampleDB 15 = Some productEditorUser"
    by (simp add: exampleDB_def)
  have r: "UserRole productEditorUser = Some productEditorRole"
    by (simp add: productEditorUser_def)
  have nf: "\<not> IsFullAccessRole productEditorUser"
    by (simp add: IsFullAccessRole_iff [OF r] holdsTwelvePermissions_def hasPermissionFor_def
        productEditorRole_def)
  have ct: "contentTypes exampleDB 2 = Some articleType"
    by (simp add: exampleDB_def)
  have c: "FilterFieldsByPermission (setUserScope ''custom'' 15 exampleDB) 15 ''update'' mediaData 2 =
        Inr [(''image'', VString ''http://cdn/1.png''), (''image_media_id'', VUint 5)]"
    by (simp add: FilterFieldsByPermission_scoped [OF u nf] r ct productEditorRole_def
        contentTypeExcluded_def decodedList_def mediaData_def)
  have a: "FilterFieldsByPermission (setUserScope ''all'' 15 exampleDB) 15 ''update'' mediaData 2 =
        Inr [(''image'', VString ''http://cdn/1.png'')]"
    by (simp add: FilterFieldsByPermission_scoped [OF u nf] r ct productEditorRole_def
        contentTypeExcluded_def decodedList_def mediaData_def keepByScope_def
        articleType_def plainField_def)
  show ?thesis
    using u nf c a by simp
qed

section \<open>String lengths\<close>

text \<open>
  Claim C3. \<open>validateString\<close> compares the bounds with \<open>len(strVal)\<close>, the number of
  bytes. The string of the one code point U+00E9 has rune count 1 and byte length 2:
  the field of at most one character rejects it as too long, and the field of at least
  two characters accepts it.
\<close>

theorem validateString_counts_bytes:
  "specRuneCount eAcute = 1
   \<and> length eAcute = 2
   \<and> MaxLength atMostOneField = Some 1
   \<and> validateString exampleExt atMostOneField (VString eAcute) = Inl (TooLong ''initial'' 1)
   \<and> MinLength atLeastTwoField = Some 2
   \<and> validateString exampleExt atLeastTwoField (VString eAcute) = Inr ()"
  by (simp add: specRuneCount_def isContinuationByte_def eAcute_def atMostOneField_def
      atLeastTwoField_def plainField_def validateString_def exampleExt_def)

section \<open>Partial validation\<close>

lemma validatePartialLoop_append:
  "validatePartialLoop ext db contentTypeID fieldMap entryID (pre @ rest) =
     (case validatePartialLoop ext db contentTypeID fieldMap entryID pre of
        Inl err \<Rightarrow> Inl err
      | Inr _ \<Rightarrow> validatePartialLoop ext db contentTypeID fieldMap entryID rest)"
proof (induction pre)
  case Nil
  show ?case by simp
next
  case (Cons a pre)
  then show ?case by (cases a) (simp split: option.split sum.split)
qed

lemma validatePartialLoop_accepts:
  "validatePartialLoop ext db (TypeID ct) (fieldMapOf (Fields ct @ SEOFields ct)) entryID m = Inr ()
     \<longleftrightarrow> list_all (partialEntryAccepted ext db ct entryID) m"
proof (induction m)
  case Nil
  show ?case by simp
next
  case (Cons a m)
  then show ?case
    by (cases a) (simp add: partialEntryAccepted_def split: option.split sum.split)
qed

text \<open>
  Claim C4, as amended. \<open>ValidatePartialUpdate\<close> visits the submitted keys in turn.
  When the keys visited before a key pass, the outcome at that key is: a key ending in
  \<open>_media_id\<close> is skipped, in the schema or not, empty or not; any other key that
  the schema does not define is refused with \<open>UnknownField\<close>; a required field that
  is present with nil or the empty string is refused with \<open>RequiredEmpty\<close>; every
  other present value goes through the switch on the declared type and, for a unique
  field, the uniqueness query that excludes the entry being updated. The update is
  accepted exactly when every submitted key passes, so a field that is not submitted,
  required or not, is never a reason to refuse.
\<close>

theorem ValidatePartialUpdate_present_keys:
  "(ValidatePartialUpdate ext db ct pre entryID = Inr () \<longrightarrow>
      ValidatePartialUpdate ext db ct (pre @ (k, v) # post) entryID =
        (if HasSuffix k ''_media_id'' then ValidatePartialUpdate ext db ct post entryID
         else (case fieldMapOf (Fields ct @ SEOFields ct) k of
                 None \<Rightarrow> Inl (UnknownField k)
               | Some field \<Rightarrow>
                   if v = VNil \<or> v = VString ''''
                   then (if Required field then Inl (RequiredEmpty (FieldName field))
                         else ValidatePartialUpdate ext db ct post entryID)
                   else (case checkPresent ext db (TypeID ct) field v (Some entryID) of
                           Inl err \<Rightarrow> Inl err
                         | Inr _ \<Rightarrow> ValidatePartialUpdate ext db ct post entryID))))
   \<and> (ValidatePartialUpdate ext db ct m entryID = Inr ()
        \<longleftrightarrow> list_all (partialEntryAccepted ext db ct entryID) m)"
  by (simp add: ValidatePartialUpdate_def validatePartialLoop_append
      validatePartialLoop_accepts [symmetric] split: option.split sum.split)


lemma plainField_sel [simp]:
  "FieldName (plainField name type seo) = name"
  "FieldType (plainField name type seo) = type"
  "Required (plainField name type seo) = False"
  "IsSEO (plainField name type seo) = seo"
  "Unique (plainField name type seo) = False"
  "MaxLength (plainField name type seo) = None"
  "MinLength (plainField name type seo) = None"
  "Pattern (plainField name type seo) = []"
  "MinValue (plainField name type seo) = None"
  "MaxValue (plainField name type seo) = None"
  "DefaultValue (plainField name type seo) = []"
  by (simp_all add: plainField_def)

lemmas validator_defs =
  checkPresent_def validateFieldByType_def validateString_def validateEmail_def
  validateURL_def validateNumber_def checkRange_def validateDate_def validateMedia_def
  checkUniqueness_def

theorem ValidatePartialUpdate_present_keys_witness:
  "ValidatePartialUpdate exampleExt exampleDB noteType [(''body'', VString ''t'')] 7 = Inr ()
   \<and> list_all (partialEntryAccepted exampleExt exampleDB noteType 7) [(''body'', VString ''t'')]
   \<and> ValidatePartialUpdate exampleExt exampleDB noteType
        [(''body'', VString ''t''), (''bogus'', VBool True)] 7 = Inl (UnknownField ''bogus'')
   \<and> ValidatePartialUpdate exampleExt exampleDB noteType
        [(''body'', VString ''t''), (''title'', VString [])] 7 = Inl (RequiredEmpty ''title'')
   \<and> ValidatePartialUpdate exampleExt exampleDB noteType
        [(''body'', VString ''t''), (''title'', VFloat64 3)] 7 = Inl (MustBeString ''title'')"
proof -
  note inst = ValidatePartialUpdate_present_keys [where ext = exampleExt and db = exampleDB
      and ct = noteType and entryID = 7 and pre = "[(''body'', VString ''t'')]"
      and m = "[(''body'', VString ''t'')]" and post = "[]"]
  have fm: "fieldMapOf (Fields noteType @ SEOFields noteType) =
      [''title'' \<mapsto> (plainField ''title'' ''string'' False)\<lparr>Required := True\<rparr>,
       ''body'' \<mapsto> plainField ''body'' ''text'' False]"
    by (simp add: fieldMapOf_def noteType_def)
  have acc: "list_all (partialEntryAccepted exampleExt exampleDB noteType 7)
      [(''body'', VString ''t'')]"
    by (simp add: partialEntryAccepted_def fm validator_defs HasSuffix_def exampleExt_def)
  have pre: "ValidatePartialUpdate exampleExt exampleDB noteType [(''body'', VString ''t'')] 7
      = Inr ()"
    using inst [of "''bogus''" VNil] acc by simp
  have nil: "ValidatePartialUpdate exampleExt exampleDB noteType [] 7 = Inr ()"
    by (simp add: ValidatePartialUpdate_def)
  show ?thesis
    using pre acc nil inst [of "''bogus''" "VBool True"] inst [of "''title''" "VString []"]
      inst [of "''title''" "VFloat64 3"]
    by (simp add: fm HasSuffix_def validator_defs)
qed

theorem ValidatePartialUpdate_present_keys_counterexample:
  "fieldMapOf (Fields noteType @ SEOFields noteType) ''avatar_media_id'' = None
   \<and> ValidatePartialUpdate exampleExt exampleDB noteType [(''avatar_media_id'', VUint 5)] 7
       = Inr ()
   \<and> fieldMapOf (Fields noteType @ SEOFields noteType) ''bogus'' = None
   \<and> ValidatePartialUpdate exampleExt exampleDB noteType
        [(''body'', VBool True), (''bogus'', VNil)] 7 = Inl (MustBeString ''body'')"
  by (simp add: ValidatePartialUpdate_def fieldMapOf_def noteType_def HasSuffix_def
      validator_defs)

section \<open>Keys ending in \<open>_media_id\<close>\<close>









section \<open>Entry lifecycle\<close>

lemma firstEntry_SomeD:
  assumes "firstEntry db entryID = Some entry"
  shows "ID entry = entryID" and "DeletedAt entry = None" and "entry \<in> set (entries db)"
  using assms by (auto simp: firstEntry_def find_Some_iff)

lemma find_replace:
  assumes "find (\<lambda>e. ID e = i \<and> DeletedAt e = None) rows = Some e"
    and "ID e' = i" and "DeletedAt e' = None"
  shows "find (\<lambda>e. ID e = i \<and> DeletedAt e = None)
           (map (\<lambda>e. if ID e = i then e' else e) rows) = Some e'"
  using assms by (induction rows) (auto split: if_splits)

lemma firstEntry_saveEntry:
  assumes "firstEntry db entryID = Some entry"
    and "ID entry' = entryID" and "DeletedAt entry' = None"
  shows "firstEntry (db\<lparr>entries := saveEntry entry' (entries db)\<rparr>) entryID = Some entry'"
proof -
  have "list_ex (\<lambda>e. ID e = ID entry') (entries db)"
    using firstEntry_SomeD [OF assms(1)] assms(2) by (auto simp: list_ex_iff)
  then show ?thesis
    using assms find_replace [of entryID "entries db" entry entry']
    by (simp add: firstEntry_def saveEntry_def)
qed

lemma find_softDelete:
  "find (\<lambda>e. ID e = i \<and> DeletedAt e = None)
     (map (\<lambda>e. if ID e = i \<and> DeletedAt e = None then e\<lparr>DeletedAt := Some now\<rparr> else e) rows)
   = None"
  by (induction rows) auto

text \<open>
  Claim C8, as amended. Outside the workflow engine: \<open>CreateContentEntry\<close> stores the
  new entry in \<open>draft\<close>. An update, by \<open>UpdateEntry\<close> or by the update handler, and
  a deletion are refused while the entry is \<open>published\<close>, and the store is unchanged.
  A successful update stores the entry with the status \<open>draft\<close>, whatever status it
  had, and appends no history row. A successful deletion is a soft delete: every row
  stays, the live row with the key gets its \<open>DeletedAt\<close> stamp, and the entry is no
  longer found.
\<close>

theorem entry_lifecycle_outside_workflow:
  "(CreateContentEntry ext contentTypeID userID data db = (Inr created, db')
      \<longrightarrow> Status created = StatusDraft \<and> entries db' = entries db @ [created])
   \<and> (firstEntry db entryID = Some entry \<and> Status entry = StatusPublished
      \<longrightarrow> UpdateEntry ext entryID userID data db = (Inl PublishedLocked, db)
        \<and> UpdateEntryHandler ext entryID userID data db = (Inl PublishedLocked, db)
        \<and> DeleteEntryHandler now entryID db = (Inl PublishedLocked, db))
   \<and> (UpdateEntry ext entryID userID data db = (Inr updated, db')
        \<or> UpdateEntryHandler ext entryID userID data db = (Inr updated, db')
      \<longrightarrow> Status updated = StatusDraft
        \<and> firstEntry db' entryID = Some updated
        \<and> histories db' = histories db)
   \<and> (DeleteEntryHandler now entryID db = (Inr (), db')
      \<longrightarrow> firstEntry db' entryID = None
        \<and> entries db' = map (\<lambda>e. if ID e = entryID \<and> DeletedAt e = None
                                  then e\<lparr>DeletedAt := Some now\<rparr> else e) (entries db))"
proof (intro conjI impI)
  assume "CreateContentEntry ext contentTypeID userID data db = (Inr created, db')"
  then show "Status created = StatusDraft" and "entries db' = entries db @ [created]"
    by (auto simp: CreateContentEntry_def Let_def split: option.splits prod.splits sum.splits
        if_splits)
next
  assume "firstEntry db entryID = Some entry \<and> Status entry = StatusPublished"
  then show "UpdateEntry ext entryID userID data db = (Inl PublishedLocked, db)"
    and "UpdateEntryHandler ext entryID userID data db = (Inl PublishedLocked, db)"
    and "DeleteEntryHandler now entryID db = (Inl PublishedLocked, db)"
    by (simp_all add: UpdateEntry_def UpdateEntryHandler_def DeleteEntryHandler_def)
next
  assume u: "UpdateEntry ext entryID userID data db = (Inr updated, db')
        \<or> UpdateEntryHandler ext entryID userID data db = (Inr updated, db')"
  then obtain entry newData where
    e: "firstEntry db entryID = Some entry"
    and upd: "updated = entry\<lparr>Data := Some newData, Status := StatusDraft, UpdatedBy := userID\<rparr>"
    and db': "db' = db\<lparr>entries := saveEntry updated (entries db)\<rparr>"
    by (auto simp: UpdateEntry_def UpdateEntryHandler_def Let_def
        split: option.splits prod.splits sum.splits if_splits)
  show "Status updated = StatusDraft"
    by (simp add: upd)
  show "firstEntry db' entryID = Some updated"
    unfolding db' using firstEntry_SomeD [OF e]
    by (intro firstEntry_saveEntry [OF e]) (simp_all add: upd)
  show "histories db' = histories db"
    by (simp add: db')
next
  assume d: "DeleteEntryHandler now entryID db = (Inr (), db')"
  then obtain entry where e: "firstEntry db entryID = Some entry"
    and db': "db' = db\<lparr>entries := map (\<lambda>e. if ID e = ID entry \<and> DeletedAt e = None
                                         then e\<lparr>DeletedAt := Some now\<rparr> else e)
                                  (entries db)\<rparr>"
    by (auto simp: DeleteEntryHandler_def split: option.splits if_splits)
  have i: "ID entry = entryID"
    by (rule firstEntry_SomeD [OF e])
  show "firstEntry db' entryID = None"
    by (simp add: db' i firstEntry_def find_softDelete)
  show "entries db' = map (\<lambda>e. if ID e = entryID \<and> DeletedAt e = None
                                  then e\<lparr>DeletedAt := Some now\<rparr> else e) (entries db)"
    by (simp add: db' i)
qed


lemma validate_newTitle:
  "ValidateContentEntryEnhanced exampleExt exampleDB articleType newTitle = (Inr (), newTitle)"
  by (simp add: ValidateContentEntryEnhanced_def articleType_def newTitle_def isEmptyValue_def
      validator_defs exampleExt_def)

lemma firstEntry_exampleDB:
  "firstEntry exampleDB 7 = Some (exampleEntry 7 StatusDraft)"
  "firstEntry exampleDB 8 = Some (exampleEntry 8 StatusInReview)"
  "firstEntry exampleDB 9 = Some (exampleEntry 9 StatusApproved)"
  "firstEntry exampleDB 6 = Some ((exampleEntry 6 StatusPublished)\<lparr>PublishedAt := Some 50\<rparr>)"
  by (simp_all add: firstEntry_def exampleDB_def exampleEntry_def)

lemma exampleDB_sel:
  "contentTypes exampleDB 2 = Some articleType"
  "faults exampleDB = (\<lambda>statement. False)"
  "histories exampleDB = []"
  "nextEntryID exampleDB = 10"
  "entries exampleDB = [exampleEntry 7 StatusDraft, exampleEntry 8 StatusInReview,
     exampleEntry 9 StatusApproved, (exampleEntry 6 StatusPublished)\<lparr>PublishedAt := Some 50\<rparr>]"
  by (simp_all add: exampleDB_def)

lemma exampleEntry_sel [simp]:
  "ID (exampleEntry entryID status) = entryID"
  "ContentTypeID (exampleEntry entryID status) = 2"
  "Status (exampleEntry entryID status) = status"
  "PublishedAt (exampleEntry entryID status) = None"
  "DeletedAt (exampleEntry entryID status) = None"
  "Data (exampleEntry entryID status) = Some [(''title'', VString ''Hello'')]"
  by (simp_all add: exampleEntry_def)

theorem entry_lifecycle_outside_workflow_counterexample:
  "firstEntry exampleDB 8 = Some (exampleEntry 8 StatusInReview)
   \<and> fst (UpdateEntry exampleExt 8 11 newTitle exampleDB) =
        Inr ((exampleEntry 8 StatusInReview)
               \<lparr>Data := Some newTitle, Status := StatusDraft, UpdatedBy := 11\<rparr>)
   \<and> map_option Status (firstEntry (snd (UpdateEntry exampleExt 8 11 newTitle exampleDB)) 8) =
        Some StatusDraft
   \<and> histories (snd (UpdateEntry exampleExt 8 11 newTitle exampleDB)) = []
   \<and> StatusDraft \<noteq> StatusInReview"
  by (simp add: UpdateEntry_def firstEntry_exampleDB exampleDB_sel validate_newTitle
      status_defs firstEntry_def saveEntry_def Let_def)

theorem entry_lifecycle_outside_workflow_witness:
  "fst (CreateContentEntry exampleExt 2 11 newTitle exampleDB) =
        Inr \<lparr>ID = 10, ContentTypeID = 2, Data = Some newTitle, Status = StatusDraft,
             CreatedBy = 11, UpdatedBy = 0, PublishedAt = None, DeletedAt = None\<rparr>
   \<and> entries (snd (CreateContentEntry exampleExt 2 11 newTitle exampleDB)) =
        entries exampleDB @
          [\<lparr>ID = 10, ContentTypeID = 2, Data = Some newTitle, Status = StatusDraft,
            CreatedBy = 11, UpdatedBy = 0, PublishedAt = None, DeletedAt = None\<rparr>]
   \<and> map_option Status (firstEntry exampleDB 6) = Some StatusPublished
   \<and> UpdateEntry exampleExt 6 11 newTitle exampleDB = (Inl PublishedLocked, exampleDB)
   \<and> UpdateEntryHandler exampleExt 6 11 newTitle exampleDB = (Inl PublishedLocked, exampleDB)
   \<and> DeleteEntryHandler 200 6 exampleDB = (Inl PublishedLocked, exampleDB)
   \<and> fst (UpdateEntry exampleExt 8 11 newTitle exampleDB) =
        Inr ((exampleEntry 8 StatusInReview)
               \<lparr>Data := Some newTitle, Status := StatusDraft, UpdatedBy := 11\<rparr>)
   \<and> map_option Status (firstEntry (snd (UpdateEntry exampleExt 8 11 newTitle exampleDB)) 8) =
        Some StatusDraft
   \<and> fst (DeleteEntryHandler 200 7 exampleDB) = Inr ()
   \<and> firstEntry (snd (DeleteEntryHandler 200 7 exampleDB)) 7 = None
   \<and> map ID (entries (snd (DeleteEntryHandler 200 7 exampleDB))) = [7, 8, 9, 6]"
proof -
  let ?created = "\<lparr>ID = 10, ContentTypeID = 2, Data = Some newTitle, Status = StatusDraft,
             CreatedBy = 11, UpdatedBy = 0, PublishedAt = None, DeletedAt = None\<rparr>"
  let ?updated = "(exampleEntry 8 StatusInReview)
               \<lparr>Data := Some newTitle, Status := StatusDraft, UpdatedBy := 11\<rparr>"
  let ?published = "(exampleEntry 6 StatusPublished)\<lparr>PublishedAt := Some 50\<rparr>"
  have c: "fst (CreateContentEntry exampleExt 2 11 newTitle exampleDB) = Inr ?created"
    by (simp add: CreateContentEntry_def exampleDB_sel validate_newTitle Let_def)
  have p: "firstEntry exampleDB 6 = Some ?published \<and> Status ?published = StatusPublished"
    by (simp add: firstEntry_exampleDB)
  have u: "fst (UpdateEntry exampleExt 8 11 newTitle exampleDB) = Inr ?updated"
    by (simp add: UpdateEntry_def firstEntry_exampleDB exampleDB_sel validate_newTitle
        status_defs Let_def)
  have d: "fst (DeleteEntryHandler 200 7 exampleDB) = Inr ()"
    by (simp add: DeleteEntryHandler_def firstEntry_exampleDB exampleDB_sel status_defs)
  note create = entry_lifecycle_outside_workflow [where ext = exampleExt and db = exampleDB
      and contentTypeID = 2 and userID = 11 and data = newTitle and created = ?created
      and db' = "snd (CreateContentEntry exampleExt 2 11 newTitle exampleDB)"]
  note locked = entry_lifecycle_outside_workflow [where ext = exampleExt and db = exampleDB
      and entryID = 6 and userID = 11 and data = newTitle and entry = ?published
      and now = 200]
  note update = entry_lifecycle_outside_workflow [where ext = exampleExt and db = exampleDB
      and entryID = 8 and userID = 11 and data = newTitle and updated = ?updated
      and db' = "snd (UpdateEntry exampleExt 8 11 newTitle exampleDB)"]
  note delete = entry_lifecycle_outside_workflow [where db = exampleDB
      and entryID = 7 and now = 200
      and db' = "snd (DeleteEntryHandler 200 7 exampleDB)"]
  have c': "CreateContentEntry exampleExt 2 11 newTitle exampleDB =
      (Inr ?created, snd (CreateContentEntry exampleExt 2 11 newTitle exampleDB))"
    using c by (simp add: prod_eq_iff)
  have u': "UpdateEntry exampleExt 8 11 newTitle exampleDB =
      (Inr ?updated, snd (UpdateEntry exampleExt 8 11 newTitle exampleDB))"
    using u by (simp add: prod_eq_iff)
  have d': "DeleteEntryHandler 200 7 exampleDB =
      (Inr (), snd (DeleteEntryHandler 200 7 exampleDB))"
    using d by (simp add: prod_eq_iff)
  have r123: "UpdateEntry exampleExt 6 11 newTitle exampleDB = (Inl PublishedLocked, exampleDB)
      \<and> UpdateEntryHandler exampleExt 6 11 newTitle exampleDB = (Inl PublishedLocked, exampleDB)
      \<and> DeleteEntryHandler 200 6 exampleDB = (Inl PublishedLocked, exampleDB)"
    by (rule locked [THEN conjunct2, THEN conjunct1, THEN mp, OF p])
  have r1: "UpdateEntry exampleExt 6 11 newTitle exampleDB = (Inl PublishedLocked, exampleDB)"
    and r2: "UpdateEntryHandler exampleExt 6 11 newTitle exampleDB = (Inl PublishedLocked, exampleDB)"
    and r3: "DeleteEntryHandler 200 6 exampleDB = (Inl PublishedLocked, exampleDB)"
    using r123 by (rule conjunct1, rule conjunct2 [THEN conjunct1], rule conjunct2 [THEN conjunct2])
  have upd: "Status ?updated = StatusDraft
      \<and> firstEntry (snd (UpdateEntry exampleExt 8 11 newTitle exampleDB)) 8 = Some ?updated
      \<and> histories (snd (UpdateEntry exampleExt 8 11 newTitle exampleDB)) = histories exampleDB"
    by (rule update [THEN conjunct2, THEN conjunct2, THEN conjunct1, THEN mp, OF disjI1, OF u'])
  have r4: "map_option Status (firstEntry (snd (UpdateEntry exampleExt 8 11 newTitle exampleDB)) 8)
      = Some StatusDraft"
    by (simp add: upd [THEN conjunct2, THEN conjunct1])
  have del: "firstEntry (snd (DeleteEntryHandler 200 7 exampleDB)) 7 = None
      \<and> entries (snd (DeleteEntryHandler 200 7 exampleDB)) =
          map (\<lambda>e. if ID e = 7 \<and> DeletedAt e = None then e\<lparr>DeletedAt := Some 200\<rparr> else e)
            (entries exampleDB)"
    by (rule delete [THEN conjunct2, THEN conjunct2, THEN conjunct2, THEN mp, OF d'])
  have r5: "firstEntry (snd (DeleteEntryHandler 200 7 exampleDB)) 7 = None"
    by (rule del [THEN conjunct1])
  have r6: "map ID (entries (snd (DeleteEntryHandler 200 7 exampleDB))) = [7, 8, 9, 6]"
    by (simp add: del [THEN conjunct2] exampleDB_sel)
  have cr: "Status ?created = StatusDraft
      \<and> entries (snd (CreateContentEntry exampleExt 2 11 newTitle exampleDB)) =
          entries exampleDB @ [?created]"
    by (rule create [THEN conjunct1, THEN mp, OF c'])
  have r7: "map_option Status (firstEntry exampleDB 6) = Some StatusPublished"
    using p by simp
  show ?thesis
    by (intro conjI c cr [THEN conjunct2] r7 r1 r2 r3 u r4 d r5 r6)
qed

section \<open>Validating twice\<close>

lemma isEmptyValue_default [simp]:
  "s \<noteq> [] \<Longrightarrow> \<not> isEmptyValue (Some (VString s))"
  by (simp add: isEmptyValue_def)

text \<open>The loop changes a key only by writing a default over an empty value.\<close>

lemma validateFields_frame:
  assumes "validateFields ext db c fs d = (r, d')"
  shows "map_of d' k = map_of d k
    \<or> (isEmptyValue (map_of d k)
        \<and> (\<exists>g\<in>set fs. FieldName g = k \<and> DefaultValue g \<noteq> []
              \<and> map_of d' k = Some (VString (DefaultValue g))))"
  using assms
proof (induction fs arbitrary: d)
  case Nil
  then show ?case by simp
next
  case (Cons f fs)
  show ?case
  proof (cases "isEmptyValue (map_of d (FieldName f)) \<and> \<not> Required f \<and> DefaultValue f \<noteq> []")
    case True
    let ?da = "AList.update (FieldName f) (VString (DefaultValue f)) d"
    from True Cons.prems have run: "validateFields ext db c fs ?da = (r, d')"
      by simp
    note ih = Cons.IH [OF run]
    show ?thesis
    proof (cases "k = FieldName f")
      case k: True
      have "\<not> isEmptyValue (map_of ?da k)"
        using True k by (simp add: update_conv')
      with ih have "map_of d' k = Some (VString (DefaultValue f))"
        using k by (auto simp: update_conv')
      then show ?thesis using True k by auto
    next
      case False
      then have "map_of ?da k = map_of d k"
        by (simp add: update_conv')
      with ih show ?thesis by auto
    qed
  next
    case False
    then have "(r, d') = (r, d) \<or> validateFields ext db c fs d = (r, d')"
      using Cons.prems by (auto split: if_splits sum.splits)
    then show ?thesis
    proof
      assume "(r, d') = (r, d)"
      then show ?thesis by simp
    next
      assume "validateFields ext db c fs d = (r, d')"
      from Cons.IH [OF this] show ?thesis by auto
    qed
  qed
qed

lemma validateFields_keeps_nonempty:
  assumes "validateFields ext db c fs d = (r, d')" and "\<not> isEmptyValue (map_of d k)"
  shows "map_of d' k = map_of d k"
  using validateFields_frame [OF assms(1), of k] assms(2) by blast

text \<open>After a successful run every field with a default has a value.\<close>

lemma validateFields_defaults_filled:
  assumes "validateFields ext db c fs d = (Inr (), d')"
    and "f \<in> set fs" and "DefaultValue f \<noteq> []"
  shows "\<not> isEmptyValue (map_of d' (FieldName f))"
  using assms
proof (induction fs arbitrary: d)
  case Nil
  then show ?case by simp
next
  case (Cons g fs)
  obtain da where step: "validateFields ext db c fs da = (Inr (), d')"
    and da: "da = d \<or> (isEmptyValue (map_of d (FieldName g)) \<and> DefaultValue g \<noteq> []
               \<and> da = AList.update (FieldName g) (VString (DefaultValue g)) d)"
    and filled: "DefaultValue g \<noteq> [] \<Longrightarrow> \<not> isEmptyValue (map_of da (FieldName g))"
    using Cons.prems(1) by (auto simp: update_conv' split: if_splits sum.splits)
  show ?case
  proof (cases "f \<in> set fs")
    case True
    from Cons.IH [OF step True Cons.prems(3)] show ?thesis .
  next
    case False
    then have fg: "f = g" using Cons.prems(2) by simp
    have "\<not> isEmptyValue (map_of da (FieldName f))"
      using filled Cons.prems(3) fg by simp
    then show ?thesis
      using validateFields_keeps_nonempty [OF step] by simp
  qed
qed

text \<open>When every field with a default has a value, the loop writes nothing.\<close>

lemma validateFields_no_injection:
  assumes "\<And>f. f \<in> set fs \<Longrightarrow> DefaultValue f \<noteq> [] \<Longrightarrow> \<not> isEmptyValue (map_of d (FieldName f))"
  shows "snd (validateFields ext db c fs d) = d"
  using assms
proof (induction fs)
  case Nil
  show ?case by simp
next
  case (Cons g fs)
  have "snd (validateFields ext db c fs d) = d"
    using Cons by simp
  moreover have "isEmptyValue (map_of d (FieldName g)) \<Longrightarrow> DefaultValue g = []"
    using Cons.prems [of g] by auto
  ultimately show ?case
    by (auto split: sum.splits)
qed


lemma validateFields_append:
  "validateFields ext db c (xs @ ys) d =
     (case validateFields ext db c xs d of
        (Inl err, d') \<Rightarrow> (Inl err, d')
      | (Inr u, d') \<Rightarrow> validateFields ext db c ys d')"
  by (induction xs arbitrary: d) (simp_all split: sum.split)

lemma validateFields_settled:
  assumes "\<And>f. f \<in> set fs \<Longrightarrow> DefaultValue f \<noteq> [] \<Longrightarrow> \<not> isEmptyValue (map_of d (FieldName f))"
  shows "fst (validateFields ext db c fs d) = Inr () \<longleftrightarrow> (\<forall>f\<in>set fs. fieldPasses ext db c d f)"
  using assms
proof (induction fs)
  case Nil
  show ?case by simp
next
  case (Cons g fs)
  have ih: "fst (validateFields ext db c fs d) = Inr () \<longleftrightarrow> (\<forall>f\<in>set fs. fieldPasses ext db c d f)"
    using Cons by simp
  have nodef: "isEmptyValue (map_of d (FieldName g)) \<Longrightarrow> DefaultValue g = []"
    using Cons.prems [of g] by auto
  show ?case
    using ih nodef by (auto simp: fieldPasses_def split: sum.splits)
qed


text \<open>
  Claim C7. Both callers of \<open>ValidateContentEntryEnhanced\<close>, \<open>CreateContentEntry\<close>
  and \<open>UpdateEntry\<close>, load the content type with \<open>Preload("Fields")\<close> and
  \<open>Preload("SEOFields")\<close>, two associations over the same foreign key and without a
  condition, so each of the two lists holds every field of the type. On such a type,
  when validation has succeeded on a payload, validating the payload it left succeeds
  again and leaves it unchanged: every default the first pass over the fields wrote
  was checked by the second pass of the same run, and nothing is left to write.
\<close>

theorem ValidateContentEntryEnhanced_idempotent:
  assumes "set (SEOFields ct) = set (Fields ct)"
    and "ValidateContentEntryEnhanced ext db ct data = (Inr (), data1)"
  shows "ValidateContentEntryEnhanced ext db ct data1 = (Inr (), data1)"
proof -
  let ?c = "TypeID ct" and ?fs = "Fields ct" and ?ss = "SEOFields ct"
  have run: "validateFields ext db ?c (?fs @ ?ss) data = (Inr (), data1)"
    using assms(2) by (simp add: ValidateContentEntryEnhanced_def)
  then obtain dm where first: "validateFields ext db ?c ?fs data = (Inr (), dm)"
    and second: "validateFields ext db ?c ?ss dm = (Inr (), data1)"
    by (auto simp: validateFields_append split: prod.splits sum.splits)
  have filled: "\<not> isEmptyValue (map_of dm (FieldName f))"
    if "f \<in> set ?fs" "DefaultValue f \<noteq> []" for f
    using validateFields_defaults_filled [OF first that] .
  have filled': "\<not> isEmptyValue (map_of dm (FieldName f))"
    if "f \<in> set ?ss" "DefaultValue f \<noteq> []" for f
    using filled that assms(1) by simp
  have "snd (validateFields ext db ?c ?ss dm) = dm"
    by (rule validateFields_no_injection) (rule filled')
  then have same: "data1 = dm"
    using second by simp
  have "\<forall>f\<in>set ?ss. fieldPasses ext db ?c dm f"
    using validateFields_settled [of ?ss dm ext db ?c] filled' second by simp
  then have "\<forall>f\<in>set ?fs. fieldPasses ext db ?c dm f"
    using assms(1) by simp
  then have "fst (validateFields ext db ?c ?fs dm) = Inr ()"
    using validateFields_settled [of ?fs dm ext db ?c] filled by simp
  moreover have "snd (validateFields ext db ?c ?fs dm) = dm"
    by (rule validateFields_no_injection) (rule filled)
  ultimately have again: "validateFields ext db ?c ?fs dm = (Inr (), dm)"
    by (simp add: prod_eq_iff)
  show ?thesis
    unfolding ValidateContentEntryEnhanced_def same
    using again second same by (simp add: validateFields_append)
qed

theorem ValidateContentEntryEnhanced_idempotent_witness:
  "set (SEOFields loadedLabelType) = set (Fields loadedLabelType)
   \<and> ValidateContentEntryEnhanced exampleExt exampleDB loadedLabelType
        [(''body'', VString ''text'')] =
      (Inr (), [(''body'', VString ''text''), (''label'', VString ''none'')])
   \<and> ValidateContentEntryEnhanced exampleExt exampleDB loadedLabelType
        [(''body'', VString ''text''), (''label'', VString ''none'')] =
      (Inr (), [(''body'', VString ''text''), (''label'', VString ''none'')])"
proof -
  have l: "set (SEOFields loadedLabelType) = set (Fields loadedLabelType)"
    by (simp add: loadedLabelType_def)
  have f: "ValidateContentEntryEnhanced exampleExt exampleDB loadedLabelType
        [(''body'', VString ''text'')] =
      (Inr (), [(''body'', VString ''text''), (''label'', VString ''none'')])"
    by (simp add: ValidateContentEntryEnhanced_def loadedLabelType_def isEmptyValue_def
        validator_defs exampleExt_def)
  show ?thesis
    by (intro conjI l f ValidateContentEntryEnhanced_idempotent [OF l f])
qed

section \<open>The publication time\<close>

lemma tableStep_same: "tableStep op db (entries db)"
  by (simp add: tableStep_def)

lemma tableStep_save:
  assumes "firstEntry db i = Some entry" and "ID entry' = i"
    and "keepsOrPublishes op i entry entry'"
  shows "tableStep op db (saveEntry entry' (entries db))"
  using assms unfolding tableStep_def by blast

lemma ChangeWorkflowStatus_shape:
  "snd (ChangeWorkflowStatus now i u toStatus c db) = db
   \<or> (\<exists>entry db'. firstEntry db i = Some entry
        \<and> snd (ChangeWorkflowStatus now i u toStatus c db) = db'
        \<and> entries db' = saveEntry
             (entry\<lparr>Status := toStatus,
                     PublishedAt := (if toStatus = StatusPublished then Some now
                                     else PublishedAt entry)\<rparr>) (entries db))"
  by (auto simp: ChangeWorkflowStatus_def Let_def split: option.splits)

lemma firstEntry_ID: "firstEntry db i = Some entry \<Longrightarrow> ID entry = i"
  by (auto simp: firstEntry_def find_Some_iff)

lemma ChangeWorkflowStatus_tableStep:
  assumes "publishRequest op i = (if toStatus = StatusPublished then Some now else None)"
  shows "tableStep op db (entries (snd (ChangeWorkflowStatus now i u toStatus c db)))"
proof -
  from ChangeWorkflowStatus_shape [of now i u toStatus c db]
  show ?thesis
  proof
    assume "snd (ChangeWorkflowStatus now i u toStatus c db) = db"
    then show ?thesis by (simp add: tableStep_same)
  next
    assume "\<exists>entry db'. firstEntry db i = Some entry
        \<and> snd (ChangeWorkflowStatus now i u toStatus c db) = db'
        \<and> entries db' = saveEntry
             (entry\<lparr>Status := toStatus,
                     PublishedAt := (if toStatus = StatusPublished then Some now
                                     else PublishedAt entry)\<rparr>) (entries db)"
    then obtain entry where e: "firstEntry db i = Some entry"
      and rows: "entries (snd (ChangeWorkflowStatus now i u toStatus c db)) = saveEntry
             (entry\<lparr>Status := toStatus,
                     PublishedAt := (if toStatus = StatusPublished then Some now
                                     else PublishedAt entry)\<rparr>) (entries db)"
      by auto
    show ?thesis
      unfolding rows
      by (rule tableStep_save [OF e])
        (simp_all add: firstEntry_ID [OF e] keepsOrPublishes_def assms)
  qed
qed


lemma CreateContentEntry_tableStep:
  "tableStep op db (entries (snd (CreateContentEntry ext contentTypeID userID data db)))"
proof -
  have "snd (CreateContentEntry ext contentTypeID userID data db) = db
    \<or> (\<exists>new. entries (snd (CreateContentEntry ext contentTypeID userID data db)) =
            entries db @ [new] \<and> PublishedAt new = None
          \<and> \<not> list_ex (\<lambda>e. ID e = ID new) (entries db))"
    by (auto simp: CreateContentEntry_def Let_def split: option.splits prod.splits sum.splits)
  then show ?thesis
    unfolding tableStep_def by auto
qed

lemma update_tableStep:
  assumes "firstEntry db i = Some entry"
  shows "tableStep op db
     (saveEntry (entry\<lparr>Data := newData, Status := StatusDraft, UpdatedBy := u\<rparr>) (entries db))"
  by (rule tableStep_save [OF assms]) (simp_all add: firstEntry_ID [OF assms] keepsOrPublishes_def)

lemma UpdateEntry_tableStep:
  "tableStep op db (entries (snd (UpdateEntry ext i u data db)))"
  by (auto simp: UpdateEntry_def Let_def tableStep_same update_tableStep
      split: option.splits prod.splits sum.splits)

lemma UpdateEntryHandler_tableStep:
  "tableStep op db (entries (snd (UpdateEntryHandler ext i u data db)))"
  by (auto simp: UpdateEntryHandler_def Let_def tableStep_same update_tableStep
      split: option.splits prod.splits sum.splits)

lemma DeleteEntryHandler_tableStep:
  "tableStep op db (entries (snd (DeleteEntryHandler now i db)))"
  by (auto simp: DeleteEntryHandler_def tableStep_def split: option.splits)

lemma step_tableStep: "tableStep op db (entries (step ext op db))"
proof (cases op)
  case (OpCreateEntry contentTypeID createdBy data)
  then show ?thesis by (simp add: CreateContentEntry_tableStep)
next
  case (OpCreateEntryHandler contentTypeID userID data)
  then show ?thesis
    by (auto simp: CreateEntryHandler_def CreateContentEntry_tableStep tableStep_same
        split: option.splits sum.splits)
next
  case (OpUpdateEntry entryID updatedBy data)
  then show ?thesis by (simp add: UpdateEntry_tableStep)
next
  case (OpUpdateEntryHandler entryID userID data)
  then show ?thesis by (simp add: UpdateEntryHandler_tableStep)
next
  case (OpDeleteEntry now entryID)
  then show ?thesis by (simp add: DeleteEntryHandler_tableStep)
next
  case (OpChangeStatus now entryID userID toStatus comment)
  then show ?thesis by (simp add: ChangeWorkflowStatus_tableStep)
next
  case (OpRequestReview now entryID userID comment)
  then show ?thesis
    by (auto simp: RequestReview_def ChangeWorkflowStatus_tableStep tableStep_same status_defs
        split: option.splits)
next
  case (OpApproveEntry now entryID userID comment)
  then show ?thesis
    by (simp add: ApproveEntry_def ChangeWorkflowStatus_tableStep status_defs)
next
  case (OpRejectEntry now entryID userID comment)
  then show ?thesis
    by (simp add: RejectEntry_def ChangeWorkflowStatus_tableStep status_defs)
next
  case (OpPublishEntry now entryID userID comment)
  then show ?thesis
    by (simp add: PublishEntry_def ChangeWorkflowStatus_tableStep)
qed

text \<open>With distinct keys, the row found by key is the live row found by key.\<close>

lemma find_by_ID_unique:
  assumes "distinct (map ID rows)" and "e \<in> set rows" and "ID e = i"
  shows "find (\<lambda>x. ID x = i) rows = Some e"
  using assms by (induction rows) (auto simp: image_iff)

lemma find_after_save:
  assumes "distinct (map ID rows)" and "e \<in> set rows" and "ID e = i" and "ID e' = i"
  shows "find (\<lambda>x. ID x = t) (saveEntry e' rows) =
     (if t = i then Some e' else find (\<lambda>x. ID x = t) rows)"
proof -
  have ex: "list_ex (\<lambda>x. ID x = ID e') rows"
    using assms by (auto simp: list_ex_iff)
  have "find (\<lambda>x. ID x = t) (map (\<lambda>x. if ID x = i then e' else x) rows) =
     (if t = i then (if list_ex (\<lambda>x. ID x = i) rows then Some e' else None)
      else find (\<lambda>x. ID x = t) rows)"
    using assms(4) by (induction rows) auto
  then show ?thesis
    using ex assms(4) by (simp add: saveEntry_def)
qed

lemma map_ID_save:
  assumes "e \<in> set rows" and "ID e = ID e'"
  shows "map ID (saveEntry e' rows) = map ID rows"
proof -
  have "list_ex (\<lambda>x. ID x = ID e') rows"
    using assms by (auto simp: list_ex_iff)
  then show ?thesis
    by (simp add: saveEntry_def comp_def cong: map_cong)
qed


lemma firstEntry_mem: "firstEntry db i = Some entry \<Longrightarrow> entry \<in> set (entries db)"
  by (auto simp: firstEntry_def find_Some_iff)

lemma map_ID_softDelete:
  "map ID (map (\<lambda>e. if ID e = i \<and> DeletedAt e = None then e\<lparr>DeletedAt := Some now\<rparr> else e)
             rows) = map ID rows"
  by (induction rows) auto

lemma tableStep_distinct:
  assumes "distinct (map ID (entries db))" and "tableStep op db rows'"
  shows "distinct (map ID rows')"
  using assms(2) unfolding tableStep_def
proof (elim disjE exE conjE)
  assume "rows' = entries db"
  then show ?thesis using assms(1) by simp
next
  fix i entry entry'
  assume "firstEntry db i = Some entry" "ID entry' = i" "rows' = saveEntry entry' (entries db)"
  then show ?thesis
    using assms(1) map_ID_save [of entry "entries db" entry'] firstEntry_mem firstEntry_ID
    by simp
next
  fix new
  assume "rows' = entries db @ [new]" "\<not> list_ex (\<lambda>e. ID e = ID new) (entries db)"
  then show ?thesis
    using assms(1) by (auto simp: list_ex_iff)
next
  fix i now
  assume "rows' = map (\<lambda>e. if ID e = i \<and> DeletedAt e = None
                              then e\<lparr>DeletedAt := Some now\<rparr> else e) (entries db)"
  then have "map ID rows' = map ID (entries db)"
    by (simp only: map_ID_softDelete)
  then show ?thesis using assms(1) by simp
qed

lemma find_softDelete_PublishedAt:
  "(case find (\<lambda>x. ID x = t)
           (map (\<lambda>e. if ID e = i \<and> DeletedAt e = None then e\<lparr>DeletedAt := Some now\<rparr> else e)
              rows) of
      None \<Rightarrow> None | Some e \<Rightarrow> PublishedAt e)
   = (case find (\<lambda>x. ID x = t) rows of None \<Rightarrow> None | Some e \<Rightarrow> PublishedAt e)"
  by (induction rows) auto

lemma find_append_new_PublishedAt:
  assumes "PublishedAt new = None"
  shows "(case find (\<lambda>x. ID x = t) (rows @ [new]) of None \<Rightarrow> None | Some e \<Rightarrow> PublishedAt e)
   = (case find (\<lambda>x. ID x = t) rows of None \<Rightarrow> None | Some e \<Rightarrow> PublishedAt e)"
  using assms by (induction rows) auto

lemma tableStep_publishedAt:
  assumes "distinct (map ID (entries db))" and "tableStep op db (entries db')"
  shows "publishedAtOf db' t = publishedAtOf db t
    \<or> (publishRequest op t \<noteq> None \<and> publishedAtOf db' t = publishRequest op t)"
  using assms(2) unfolding tableStep_def
proof (elim disjE exE conjE)
  assume "entries db' = entries db"
  then show ?thesis by (simp add: publishedAtOf_def)
next
  fix i entry entry'
  assume e: "firstEntry db i = Some entry" and i: "ID entry' = i"
    and rows: "entries db' = saveEntry entry' (entries db)"
    and k: "keepsOrPublishes op i entry entry'"
  note mem = firstEntry_mem [OF e] and id = firstEntry_ID [OF e]
  have found: "find (\<lambda>x. ID x = i) (entries db) = Some entry"
    by (rule find_by_ID_unique [OF assms(1) mem id])
  have after: "find (\<lambda>x. ID x = t) (entries db') =
      (if t = i then Some entry' else find (\<lambda>x. ID x = t) (entries db))"
    unfolding rows by (rule find_after_save [OF assms(1) mem id i])
  show ?thesis
  proof (cases "t = i")
    case True
    then show ?thesis
      using k found after by (auto simp: publishedAtOf_def keepsOrPublishes_def)
  next
    case False
    then show ?thesis
      using after by (simp add: publishedAtOf_def)
  qed
next
  fix new
  assume "entries db' = entries db @ [new]" "PublishedAt new = None"
  then show ?thesis
    by (simp add: publishedAtOf_def find_append_new_PublishedAt)
next
  fix i now
  assume "entries db' = map (\<lambda>e. if ID e = i \<and> DeletedAt e = None
                              then e\<lparr>DeletedAt := Some now\<rparr> else e) (entries db)"
  then show ?thesis
    by (simp add: publishedAtOf_def find_softDelete_PublishedAt)
qed

lemma run_invariant:
  assumes "distinct (map ID (entries db))" and "publishedAtOf db t \<noteq> None"
  shows "distinct (map ID (entries (run ext ops db))) \<and> publishedAtOf (run ext ops db) t \<noteq> None"
  using assms unfolding run_def
proof (induction ops arbitrary: db)
  case Nil
  then show ?case by simp
next
  case (Cons op ops)
  have d: "distinct (map ID (entries (step ext op db)))"
    by (rule tableStep_distinct [OF Cons.prems(1) step_tableStep])
  have "publishedAtOf (step ext op db) t \<noteq> None"
    using tableStep_publishedAt [OF Cons.prems(1) step_tableStep, of ext op t] Cons.prems(2)
    by auto
  from Cons.IH [OF d this] show ?case by simp
qed

text \<open>
  Claim C6. On a table with distinct keys, one operation leaves the stored
  \<open>PublishedAt\<close> of an entry as it was, unless the operation is a request to the
  workflow engine to move this entry to \<open>published\<close>, and then \<open>PublishedAt\<close> is the
  clock reading of that request. A status change to \<open>published\<close> that succeeds sets
  it to the current time; a status change to any other status that succeeds leaves it
  as it was. Once it is set, no sequence of operations clears it.
\<close>

theorem publishedAt_set_on_publish_only:
  assumes "distinct (map ID (entries db))"
  shows "(publishedAtOf (step ext op db) target = publishedAtOf db target
          \<or> (publishRequest op target \<noteq> None
              \<and> publishedAtOf (step ext op db) target = publishRequest op target))
    \<and> (ChangeWorkflowStatus now target userID toStatus comment db = (Inr moved, db')
         \<longrightarrow> PublishedAt moved = publishedAtOf db' target
           \<and> publishedAtOf db' target =
               (if toStatus = StatusPublished then Some now else publishedAtOf db target))
    \<and> (publishedAtOf db target \<noteq> None \<longrightarrow> publishedAtOf (run ext ops db) target \<noteq> None)"
proof (intro conjI impI)
  show "publishedAtOf (step ext op db) target = publishedAtOf db target
          \<or> (publishRequest op target \<noteq> None
              \<and> publishedAtOf (step ext op db) target = publishRequest op target)"
    by (rule tableStep_publishedAt [OF assms step_tableStep])
next
  assume c: "ChangeWorkflowStatus now target userID toStatus comment db = (Inr moved, db')"
  then obtain entry where e: "firstEntry db target = Some entry"
    and moved: "moved = entry\<lparr>Status := toStatus,
                     PublishedAt := (if toStatus = StatusPublished then Some now
                                     else PublishedAt entry)\<rparr>"
    and rows: "entries db' = saveEntry moved (entries db)"
    by (auto simp: ChangeWorkflowStatus_def Let_def split: option.splits if_splits)
  note mem = firstEntry_mem [OF e] and id = firstEntry_ID [OF e]
  have i: "ID moved = target"
    by (simp add: moved id)
  have found: "find (\<lambda>x. ID x = target) (entries db) = Some entry"
    by (rule find_by_ID_unique [OF assms mem id])
  have after: "find (\<lambda>x. ID x = target) (entries db') = Some moved"
    unfolding rows using find_after_save [OF assms mem id i, of target] by simp
  show "PublishedAt moved = publishedAtOf db' target"
    by (simp add: publishedAtOf_def after)
  show "publishedAtOf db' target =
               (if toStatus = StatusPublished then Some now else publishedAtOf db target)"
    by (simp add: publishedAtOf_def after found moved)
next
  assume "publishedAtOf db target \<noteq> None"
  then show "publishedAtOf (run ext ops db) target \<noteq> None"
    using run_invariant [OF assms] by blast
qed


theorem publishedAt_set_on_publish_only_witness:
  "distinct (map ID (entries exampleDB))
   \<and> publishedAtOf exampleDB 9 = None
   \<and> fst (ChangeWorkflowStatus 300 9 12 StatusPublished ''go'' exampleDB) =
        Inr ((exampleEntry 9 StatusApproved)
               \<lparr>Status := StatusPublished, PublishedAt := Some 300\<rparr>)
   \<and> publishedAtOf (snd (ChangeWorkflowStatus 300 9 12 StatusPublished ''go'' exampleDB)) 9 =
        Some 300
   \<and> publishedAtOf (step exampleExt (OpRejectEntry 300 9 12 ''no'') exampleDB) 9 =
        publishedAtOf exampleDB 9
   \<and> publishedAtOf exampleDB 6 = Some 50
   \<and> publishedAtOf
        (run exampleExt
           [OpUpdateEntry 6 11 newTitle, OpDeleteEntry 400 6,
            OpChangeStatus 500 6 13 StatusDraft ''back''] exampleDB) 6 \<noteq> None"
proof -
  let ?moved = "(exampleEntry 9 StatusApproved)
               \<lparr>Status := StatusPublished, PublishedAt := Some 300\<rparr>"
  let ?db' = "snd (ChangeWorkflowStatus 300 9 12 StatusPublished ''go'' exampleDB)"
  have d: "distinct (map ID (entries exampleDB))"
    by (simp add: exampleDB_sel)
  have p9: "publishedAtOf exampleDB 9 = None" and p6: "publishedAtOf exampleDB 6 = Some 50"
    by (simp_all add: publishedAtOf_def exampleDB_sel)
  have u: "users exampleDB 12 = Some managerUser" and r: "UserRole managerUser = Some managerRole"
    by (simp_all add: exampleDB_def managerUser_def)
  have c: "fst (ChangeWorkflowStatus 300 9 12 StatusPublished ''go'' exampleDB) = Inr ?moved"
    by (simp add: ChangeWorkflowStatus_def firstEntry_exampleDB u r managerRole_def
        isValidTransition_table inSpecTable_def specTransitionTable_def status_defs
        exampleDB_sel Let_def)
  then have c': "ChangeWorkflowStatus 300 9 12 StatusPublished ''go'' exampleDB = (Inr ?moved, ?db')"
    by (simp add: prod_eq_iff)
  note inst = publishedAt_set_on_publish_only [OF d, where ext = exampleExt]
  have pub: "PublishedAt ?moved = publishedAtOf ?db' 9
      \<and> publishedAtOf ?db' 9 =
          (if StatusPublished = StatusPublished then Some 300 else publishedAtOf exampleDB 9)"
    by (rule inst [THEN conjunct2, THEN conjunct1, THEN mp, OF c'])
  have r1: "publishedAtOf ?db' 9 = Some 300"
    using pub [THEN conjunct2] by simp
  have "publishedAtOf (step exampleExt (OpRejectEntry 300 9 12 ''no'') exampleDB) 9 =
        publishedAtOf exampleDB 9
      \<or> (publishRequest (OpRejectEntry 300 9 12 ''no'') 9 \<noteq> None
          \<and> publishedAtOf (step exampleExt (OpRejectEntry 300 9 12 ''no'') exampleDB) 9 =
              publishRequest (OpRejectEntry 300 9 12 ''no'') 9)"
    by (rule inst [THEN conjunct1])
  then have r2: "publishedAtOf (step exampleExt (OpRejectEntry 300 9 12 ''no'') exampleDB) 9 =
        publishedAtOf exampleDB 9"
    by simp
  have "publishedAtOf exampleDB 6 \<noteq> None"
    by (simp add: p6)
  then have r3: "publishedAtOf
        (run exampleExt
           [OpUpdateEntry 6 11 newTitle, OpDeleteEntry 400 6,
            OpChangeStatus 500 6 13 StatusDraft ''back''] exampleDB) 6 \<noteq> None"
    by (rule inst [THEN conjunct2, THEN conjunct2, THEN mp])
  show ?thesis
    by (intro conjI d p9 c r1 r2 p6 r3)
qed

section \<open>The handlers and the keys ending in \<open>_media_id\<close>\<close>















end
